theory Spec2Isabelle
  imports Complex_Main "HOL-Library.Log_Nat"
begin

section \<open>Numbers of the host language\<close>

text \<open>
  The program computes with two kinds of numbers: unbounded integers (\<open>bigint\<close>, here
  \<^typ>\<open>int\<close>) and IEEE 754 double precision numbers (\<open>number\<close>). A double is
  modelled by the rational it denotes, or one of the three special values. The two zeros
  are not told apart: the program only compares doubles and divides by positive ones.
\<close>

datatype double = Finite rat | PosInf | NegInf | NaN

definition pow2 :: "int \<Rightarrow> rat" where
  "pow2 e = (if 0 \<le> e then 2 ^ nat e else 1 / 2 ^ nat (- e))"

text \<open>The binary exponent of a positive rational: the \<open>e\<close> with \<open>2^e \<le> x < 2^(e+1)\<close>.\<close>

definition ilog2 :: "rat \<Rightarrow> int" where
  "ilog2 x = (case quotient_of x of (p, q) \<Rightarrow>
     (let e = bitlen p - bitlen q in if pow2 e \<le> x then e else e - 1))"

definition round_half_even :: "rat \<Rightarrow> int" where
  "round_half_even x =
     (let f = \<lfloor>x\<rfloor>; d = x - of_int f
      in if d < 1 / 2 then f else if 1 / 2 < d then f + 1 else if even f then f else f + 1)"

text \<open>
  Rounding to the nearest double, ties to the even significand: 53 significant bits,
  gradual underflow below \<open>2^-1022\<close>, overflow to infinity from \<open>2^1024\<close>.
\<close>

definition round_double :: "rat \<Rightarrow> double" where
  "round_double x =
     (if x = 0 then Finite 0
      else let a = \<bar>x\<bar>;
               e = max (ilog2 a) (- 1022);
               q = pow2 (e - 52);
               y = of_int (round_half_even (a / q)) * q
           in if 2 ^ 1024 \<le> y then (if 0 < x then PosInf else NegInf)
              else Finite (if 0 < x then y else - y))"

text \<open>\<open>Number(b)\<close> for a bigint \<open>b\<close>, and \<open>xs.length\<close> as a number.\<close>

definition Number :: "int \<Rightarrow> double" where
  "Number b = round_double (of_int b)"

text \<open>
  \<open>Math.pow(10, d)\<close> for a non-negative integer \<open>d\<close>: the double nearest to \<open>10^d\<close>
  (exactly \<open>10^d\<close> up to \<open>d = 22\<close>, infinity from \<open>d = 309\<close>).
\<close>

definition Math_pow10 :: "nat \<Rightarrow> double" where
  "Math_pow10 d = round_double (10 ^ d)"

fun fdiv :: "double \<Rightarrow> double \<Rightarrow> double" where
  "fdiv NaN _ = NaN"
| "fdiv _ NaN = NaN"
| "fdiv (Finite a) (Finite b) =
     (if b = 0 then (if a = 0 then NaN else if 0 < a then PosInf else NegInf)
      else round_double (a / b))"
| "fdiv (Finite a) PosInf = Finite 0"
| "fdiv (Finite a) NegInf = Finite 0"
| "fdiv PosInf (Finite b) = (if 0 \<le> b then PosInf else NegInf)"
| "fdiv NegInf (Finite b) = (if 0 \<le> b then NegInf else PosInf)"
| "fdiv PosInf PosInf = NaN"
| "fdiv PosInf NegInf = NaN"
| "fdiv NegInf PosInf = NaN"
| "fdiv NegInf NegInf = NaN"

fun fmul :: "double \<Rightarrow> double \<Rightarrow> double" where
  "fmul NaN _ = NaN"
| "fmul _ NaN = NaN"
| "fmul (Finite a) (Finite b) = round_double (a * b)"
| "fmul (Finite a) PosInf = (if a = 0 then NaN else if 0 < a then PosInf else NegInf)"
| "fmul (Finite a) NegInf = (if a = 0 then NaN else if 0 < a then NegInf else PosInf)"
| "fmul PosInf (Finite b) = (if b = 0 then NaN else if 0 < b then PosInf else NegInf)"
| "fmul NegInf (Finite b) = (if b = 0 then NaN else if 0 < b then NegInf else PosInf)"
| "fmul PosInf PosInf = PosInf"
| "fmul PosInf NegInf = NegInf"
| "fmul NegInf PosInf = NegInf"
| "fmul NegInf NegInf = PosInf"

fun fadd :: "double \<Rightarrow> double \<Rightarrow> double" where
  "fadd NaN _ = NaN"
| "fadd _ NaN = NaN"
| "fadd (Finite a) (Finite b) = round_double (a + b)"
| "fadd (Finite a) PosInf = PosInf"
| "fadd (Finite a) NegInf = NegInf"
| "fadd PosInf (Finite b) = PosInf"
| "fadd NegInf (Finite b) = NegInf"
| "fadd PosInf PosInf = PosInf"
| "fadd PosInf NegInf = NaN"
| "fadd NegInf PosInf = NaN"
| "fadd NegInf NegInf = NegInf"

text \<open>\<open>a < b\<close> on doubles: false as soon as one side is NaN.\<close>

fun flt :: "double \<Rightarrow> double \<Rightarrow> bool" where
  "flt NaN _ = False"
| "flt _ NaN = False"
| "flt (Finite a) (Finite b) = (a < b)"
| "flt (Finite a) PosInf = True"
| "flt (Finite a) NegInf = False"
| "flt PosInf _ = False"
| "flt NegInf NegInf = False"
| "flt NegInf _ = True"

text \<open>\<open>a > b\<close> is \<open>b < a\<close>, also on NaN.\<close>

definition fgt :: "double \<Rightarrow> double \<Rightarrow> bool" where
  "fgt a b = flt b a"

section \<open>Strings\<close>

text \<open>
  A string is a list of characters. \<open>toLowerCase\<close> maps the letters \<open>A\<close> to \<open>Z\<close> to
  lower case and leaves every other character of the 8-bit range alone.
\<close>

definition toLowerChar :: "char \<Rightarrow> char" where
  "toLowerChar c =
     (let n = (of_char c :: nat) in if 65 \<le> n \<and> n \<le> 90 then char_of (n + 32) else c)"

definition toLowerCase :: "string \<Rightarrow> string" where
  "toLowerCase s = map toLowerChar s"

fun startsWith :: "string \<Rightarrow> string \<Rightarrow> bool" where
  "startsWith s [] = True"
| "startsWith [] (p # ps) = False"
| "startsWith (c # cs) (p # ps) = (c = p \<and> startsWith cs ps)"

text \<open>\<open>s.includes(sub)\<close>: \<open>sub\<close> occurs in \<open>s\<close> as a contiguous substring.\<close>

fun str_includes :: "string \<Rightarrow> string \<Rightarrow> bool" where
  "str_includes [] sub = (sub = [])"
| "str_includes (c # cs) sub = (startsWith (c # cs) sub \<or> str_includes cs sub)"

section \<open>Token accounts and risk classification\<close>

definition RENT_EXEMPT_LAMPORTS :: double where
  "RENT_EXEMPT_LAMPORTS = Finite 2039280"

definition SPAM_INDICATORS :: "string list" where
  "SPAM_INDICATORS =
     [''airdrop'', ''free'', ''claim'', ''reward'', ''bonus'', ''gift'',
      ''winner'', ''congratulation'', ''lucky'', ''prize'']"

record TokenMetadata =
  name :: string
  symbol :: string
  logoURI :: "string option"

datatype RiskLevel = LOW | MEDIUM | HIGH | UNKNOWN

record Risk =
  level :: RiskLevel
  reason :: "string option"

record TokenAccount =
  pubkey :: string
  mint :: string
  balance :: int
  decimals :: nat
  isCloseable :: bool
  metadata :: "TokenMetadata option"
  riskLevel :: RiskLevel
  riskReason :: "string option"

text \<open>
  The loop over \<open>SPAM_INDICATORS\<close> in \<open>classifyTokenRisk\<close>: it returns from the
  function at the first indicator found in the name or in the symbol.
\<close>

fun spamLoop :: "string \<Rightarrow> string \<Rightarrow> string list \<Rightarrow> bool" where
  "spamLoop nm sy [] = False"
| "spamLoop nm sy (indicator # rest) =
     (if str_includes nm indicator \<or> str_includes sy indicator then True else spamLoop nm sy rest)"

text \<open>
  \<open>classifyTokenRisk({mint, balance, decimals}, metadata)\<close>. The name and the symbol
  default to the empty string when there is no metadata.
\<close>

definition classifyTokenRisk :: "string \<Rightarrow> int \<Rightarrow> nat \<Rightarrow> TokenMetadata option \<Rightarrow> Risk" where
  "classifyTokenRisk mt bal dec md =
     (let nm = (case md of None \<Rightarrow> [] | Some m \<Rightarrow> toLowerCase (name m));
          sy = (case md of None \<Rightarrow> [] | Some m \<Rightarrow> toLowerCase (symbol m))
      in if spamLoop nm sy SPAM_INDICATORS
         then \<lparr>level = HIGH, reason = Some ''Suspicious name (potential scam/airdrop)''\<rparr>
         else let b = fdiv (Number bal) (Math_pow10 dec)
              in if fgt b (Finite 0) \<and> flt b (round_double (1 / 10000))
                 then \<lparr>level = HIGH, reason = Some ''Micro balance (likely tracking dust)''\<rparr>
                 else if bal = 0
                 then \<lparr>level = LOW, reason = Some ''Empty account - safe to close''\<rparr>
                 else if flt b (Finite 1)
                 then \<lparr>level = MEDIUM, reason = Some ''Small balance - review before closing''\<rparr>
                 else \<lparr>level = UNKNOWN, reason = Some ''Unable to classify''\<rparr>)"

text \<open>
  One entry of the ledger's answer to \<open>getParsedTokenAccountsByOwner\<close>:
  \<open>account.pubkey\<close>, and from \<open>account.account.data.parsed.info\<close> the mint, the
  amount (after \<open>BigInt\<close>) and the decimals.
\<close>

record ParsedTokenAccount =
  account_pubkey :: string
  info_mint :: string
  info_amount :: int
  info_decimals :: nat

text \<open>The body of the \<open>map\<close> that builds the account list, in both commands.\<close>

definition buildAccount :: "(string \<rightharpoonup> TokenMetadata) \<Rightarrow> ParsedTokenAccount \<Rightarrow> TokenAccount" where
  "buildAccount metadataMap a =
     (let bal = info_amount a;
          dec = info_decimals a;
          md = metadataMap (info_mint a);
          risk = classifyTokenRisk (info_mint a) bal dec md
      in \<lparr>pubkey = account_pubkey a, mint = info_mint a, balance = bal, decimals = dec,
          isCloseable = (bal = 0), metadata = md,
          riskLevel = level risk, riskReason = reason risk\<rparr>)"

section \<open>The scan: sorting by risk\<close>

fun riskOrder :: "RiskLevel \<Rightarrow> int" where
  "riskOrder HIGH = 0"
| "riskOrder MEDIUM = 1"
| "riskOrder LOW = 2"
| "riskOrder UNKNOWN = 3"

text \<open>
  \<open>Array.prototype.sort(comparefn)\<close> is a stable sort. It is modelled as the insertion
  sort that puts an element in front of the first element to its right that the comparator
  does not order before it.
\<close>

fun sortInsert :: "('a \<Rightarrow> 'a \<Rightarrow> int) \<Rightarrow> 'a \<Rightarrow> 'a list \<Rightarrow> 'a list" where
  "sortInsert cmp x [] = [x]"
| "sortInsert cmp x (y # ys) = (if cmp x y \<le> 0 then x # y # ys else y # sortInsert cmp x ys)"

definition array_sort :: "('a \<Rightarrow> 'a \<Rightarrow> int) \<Rightarrow> 'a list \<Rightarrow> 'a list" where
  "array_sort cmp xs = foldr (sortInsert cmp) xs []"

definition riskCompare :: "TokenAccount \<Rightarrow> TokenAccount \<Rightarrow> int" where
  "riskCompare a b = riskOrder (riskLevel a) - riskOrder (riskLevel b)"

text \<open>
  The account list of \<open>scanDust\<close>: built from the ledger's answer, then sorted. What the
  command prints of it is left out.
\<close>

definition scanDust :: "(string \<rightharpoonup> TokenMetadata) \<Rightarrow> ParsedTokenAccount list \<Rightarrow> TokenAccount list" where
  "scanDust metadataMap tokenAccounts =
     array_sort riskCompare (map (buildAccount metadataMap) tokenAccounts)"

section \<open>The clean: selection\<close>

definition closeableOf :: "TokenAccount list \<Rightarrow> TokenAccount list" where
  "closeableOf accounts = filter isCloseable accounts"

definition burnableOf :: "bool \<Rightarrow> TokenAccount list \<Rightarrow> TokenAccount list" where
  "burnableOf burnFlag accounts =
     (if burnFlag
      then filter (\<lambda>a. \<not> isCloseable a \<and> (riskLevel a = HIGH \<or> riskLevel a = MEDIUM)) accounts
      else [])"

definition toProcess :: "bool \<Rightarrow> TokenAccount list \<Rightarrow> TokenAccount list" where
  "toProcess burnFlag accounts = closeableOf accounts @ burnableOf burnFlag accounts"

section \<open>Instructions and transactions\<close>

text \<open>
  \<open>createBurnInstruction(account, mint, owner, amount)\<close> and
  \<open>createCloseAccountInstruction(account, destination, authority)\<close>.
\<close>

datatype Instruction =
    BurnInstruction string string string int
  | CloseAccountInstruction string string string

type_synonym Transaction = "Instruction list"

record Keypair =
  publicKey :: string
  secretKey :: "nat list"

text \<open>
  What both processors add to a transaction for one account: a burn of the whole balance
  when there is one, then the close.
\<close>

definition addAccountInstructions :: "Keypair \<Rightarrow> Transaction \<Rightarrow> TokenAccount \<Rightarrow> Transaction" where
  "addAccountInstructions kp transaction account =
     (let t1 = (if 0 < balance account
                then transaction @
                       [BurnInstruction (pubkey account) (mint account) (publicKey kp) (balance account)]
                else transaction)
      in t1 @ [CloseAccountInstruction (pubkey account) (publicKey kp) (publicKey kp)])"

text \<open>
  The network: the \<open>n\<close>-th call of \<open>sendAndConfirmTransaction\<close> in a run (counted from 0)
  returns a signature, or throws (\<open>None\<close>).
\<close>

type_synonym Connection = "nat \<Rightarrow> Transaction \<Rightarrow> string option"

text \<open>
  The counters of a processor, with the transactions it has sent so far and what came back
  for each.
\<close>

record ProcState =
  totalClosed :: nat
  totalRecovered :: double
  submitted :: "Transaction list"
  outcomes :: "string option list"

definition initialProcState :: ProcState where
  "initialProcState = \<lparr>totalClosed = 0, totalRecovered = Finite 0, submitted = [], outcomes = []\<rparr>"

section \<open>Batch processing\<close>

definition batchSize :: nat where
  "batchSize = 5"

text \<open>\<open>xs.slice(s, e)\<close> for \<open>0 \<le> s \<le> e\<close>.\<close>

definition slice :: "'a list \<Rightarrow> nat \<Rightarrow> nat \<Rightarrow> 'a list" where
  "slice xs s e = take (e - s) (drop s xs)"

text \<open>The batches the loop of \<open>batchProcess\<close> cuts, from index \<open>i\<close> on.\<close>

function batchesFrom :: "'a list \<Rightarrow> nat \<Rightarrow> 'a list list" where
  "batchesFrom accounts i =
     (if i < length accounts
      then slice accounts i (i + batchSize) # batchesFrom accounts (i + batchSize)
      else [])"
  by pat_completeness auto
termination
  by (relation "measure (\<lambda>(accounts, i). length accounts - i)") (auto simp: batchSize_def)

declare batchesFrom.simps [simp del]

definition batchTransaction :: "Keypair \<Rightarrow> TokenAccount list \<Rightarrow> Transaction" where
  "batchTransaction kp batch = foldl (addAccountInstructions kp) [] batch"

definition batchRecovered :: "TokenAccount list \<Rightarrow> double" where
  "batchRecovered batch =
     fdiv (fmul (Number (int (length batch))) RENT_EXEMPT_LAMPORTS) (Finite 1000000000)"

text \<open>The body of the \<open>try\<close> for one batch, and its \<open>catch\<close>.\<close>

definition sendBatch :: "Connection \<Rightarrow> Keypair \<Rightarrow> TokenAccount list \<Rightarrow> ProcState \<Rightarrow> ProcState" where
  "sendBatch conn kp batch st =
     (let transaction = batchTransaction kp batch
      in case conn (length (submitted st)) transaction of
           Some signature \<Rightarrow>
             st\<lparr>totalClosed := totalClosed st + length batch,
                totalRecovered := fadd (totalRecovered st) (batchRecovered batch),
                submitted := submitted st @ [transaction],
                outcomes := outcomes st @ [Some signature]\<rparr>
         | None \<Rightarrow>
             st\<lparr>submitted := submitted st @ [transaction],
                outcomes := outcomes st @ [None]\<rparr>)"

function batchLoop :: "Connection \<Rightarrow> Keypair \<Rightarrow> TokenAccount list \<Rightarrow> nat \<Rightarrow> ProcState \<Rightarrow> ProcState" where
  "batchLoop conn kp accounts i st =
     (if i < length accounts
      then batchLoop conn kp accounts (i + batchSize)
             (sendBatch conn kp (slice accounts i (i + batchSize)) st)
      else st)"
  by pat_completeness auto
termination
  by (relation "measure (\<lambda>(conn, kp, accounts, i, st). length accounts - i)")
     (auto simp: batchSize_def)

declare batchLoop.simps [simp del]

definition batchProcess :: "Connection \<Rightarrow> Keypair \<Rightarrow> TokenAccount list \<Rightarrow> ProcState" where
  "batchProcess conn kp accounts = batchLoop conn kp accounts 0 initialProcState"

section \<open>Interactive processing\<close>

text \<open>
  The state of \<open>interactiveClean\<close>: the counters, the two mode flags, the answers not read
  yet, and the numbers (as shown in the prompt, from 1) of the accounts that were processed
  and of those that were skipped.
\<close>

record InteractiveState = ProcState +
  skipRemaining :: bool
  processAll :: bool
  answers :: "string list"
  processed :: "nat list"
  skipped :: "nat list"

definition initialInteractiveState :: "string list \<Rightarrow> InteractiveState" where
  "initialInteractiveState input =
     \<lparr>totalClosed = 0, totalRecovered = Finite 0, submitted = [], outcomes = [],
      skipRemaining = False, processAll = False, answers = input,
      processed = [], skipped = []\<rparr>"

text \<open>
  A run that asks for input either ends, or stops for ever at a question nobody answers.
\<close>

datatype 'a run = Finished 'a | AwaitingInput 'a

fun finished :: "'a run \<Rightarrow> bool" where
  "finished (Finished x) = True"
| "finished (AwaitingInput x) = False"

fun run_state :: "'a run \<Rightarrow> 'a" where
  "run_state (Finished x) = x"
| "run_state (AwaitingInput x) = x"

text \<open>
  The decision for one account: \<open>None\<close> when the question gets no answer, otherwise
  \<open>shouldProcess\<close> and the state after the answer was read.
\<close>

definition decide :: "InteractiveState \<Rightarrow> (bool \<times> InteractiveState) option" where
  "decide st =
     (if processAll st then Some (True, st)
      else if \<not> skipRemaining st then
        (case answers st of
           [] \<Rightarrow> None
         | answer # others \<Rightarrow>
             (let st1 = st\<lparr>answers := others\<rparr>; a = toLowerCase answer
              in if a = ''y'' \<or> a = ''yes'' then Some (True, st1)
                 else if a = ''a'' \<or> a = ''all'' then Some (True, st1\<lparr>processAll := True\<rparr>)
                 else if a = ''q'' \<or> a = ''quit'' then Some (False, st1\<lparr>skipRemaining := True\<rparr>)
                 else Some (False, st1)))
      else Some (False, st))"

text \<open>The \<open>try\<close> of one processed account, and its \<open>catch\<close>.\<close>

definition sendAccount :: "Connection \<Rightarrow> Keypair \<Rightarrow> TokenAccount \<Rightarrow> nat \<Rightarrow> InteractiveState \<Rightarrow> InteractiveState" where
  "sendAccount conn kp account i st =
     (let transaction = addAccountInstructions kp [] account
      in case conn (length (submitted st)) transaction of
           Some signature \<Rightarrow>
             st\<lparr>totalClosed := totalClosed st + 1,
                totalRecovered :=
                  fadd (totalRecovered st) (fdiv RENT_EXEMPT_LAMPORTS (Finite 1000000000)),
                submitted := submitted st @ [transaction],
                outcomes := outcomes st @ [Some signature],
                processed := processed st @ [i + 1]\<rparr>
         | None \<Rightarrow>
             st\<lparr>submitted := submitted st @ [transaction],
                outcomes := outcomes st @ [None],
                processed := processed st @ [i + 1]\<rparr>)"

fun interactiveLoop :: "Connection \<Rightarrow> Keypair \<Rightarrow> TokenAccount list \<Rightarrow> nat \<Rightarrow> InteractiveState \<Rightarrow> InteractiveState run" where
  "interactiveLoop conn kp [] i st = Finished st"
| "interactiveLoop conn kp (account # rest) i st =
     (case decide st of
        None \<Rightarrow> AwaitingInput st
      | Some (shouldProcess, st1) \<Rightarrow>
          interactiveLoop conn kp rest (i + 1)
            (if shouldProcess then sendAccount conn kp account i st1
             else st1\<lparr>skipped := skipped st1 @ [i + 1]\<rparr>))"

definition interactiveClean :: "Connection \<Rightarrow> Keypair \<Rightarrow> TokenAccount list \<Rightarrow> string list \<Rightarrow> InteractiveState run" where
  "interactiveClean conn kp accounts input =
     interactiveLoop conn kp accounts 0 (initialInteractiveState input)"

section \<open>Loading the keypair\<close>

datatype Error =
    LedgerQueryFailure
  | KeypairRequired
  | KeypairFileNotFound string
  | KeypairFileUnreadable
  | InvalidKeypairFormat
  | AuthorizationMismatch

text \<open>
  What \<open>loadKeypair\<close> uses of its platform: the home directory, the two path functions,
  the file system, and the three decoders. \<open>JSON_bytes c\<close> stands for
  \<open>new Uint8Array(JSON.parse(c))\<close>; a decoder that throws gives \<open>None\<close>.
\<close>

record KeypairEnv =
  HOME :: "string option"
  path_join :: "string \<Rightarrow> string \<Rightarrow> string"
  path_resolve :: "string \<Rightarrow> string"
  existsSync :: "string \<Rightarrow> bool"
  readFileSync :: "string \<Rightarrow> string option"
  JSON_bytes :: "string \<Rightarrow> nat list option"
  bs58_decode :: "string \<Rightarrow> nat list option"
  fromSecretKey :: "nat list \<Rightarrow> Keypair option"

definition isWhiteSpace :: "char \<Rightarrow> bool" where
  "isWhiteSpace c = ((of_char c :: nat) \<in> {9, 10, 11, 12, 13, 32, 160})"

definition trim :: "string \<Rightarrow> string" where
  "trim s = rev (dropWhile isWhiteSpace (rev (dropWhile isWhiteSpace s)))"

definition resolvePath :: "KeypairEnv \<Rightarrow> string \<Rightarrow> string" where
  "resolvePath env keypairPath =
     (if startsWith keypairPath ''~''
      then path_join env (case HOME env of None \<Rightarrow> [] | Some h \<Rightarrow> h) (drop 1 keypairPath)
      else path_resolve env keypairPath)"

definition loadKeypair :: "KeypairEnv \<Rightarrow> string \<Rightarrow> Error + Keypair" where
  "loadKeypair env keypairPath =
     (let resolvedPath = resolvePath env keypairPath
      in if \<not> existsSync env resolvedPath then Inl (KeypairFileNotFound resolvedPath)
         else case readFileSync env resolvedPath of
                None \<Rightarrow> Inl KeypairFileUnreadable
              | Some text \<Rightarrow>
                  (let content = trim text
                   in case Option.bind (JSON_bytes env content) (fromSecretKey env) of
                        Some kp \<Rightarrow> Inr kp
                      | None \<Rightarrow>
                          (case Option.bind (bs58_decode env content) (fromSecretKey env) of
                             Some kp \<Rightarrow> Inr kp
                           | None \<Rightarrow> Inl InvalidKeypairFormat)))"

section \<open>The clean command\<close>

record CleanOptions =
  keypair :: "string option"
  yes :: bool
  interactive :: bool
  dryRun :: bool
  burn :: bool

text \<open>
  What a run of \<open>cleanDust\<close> meets: the ledger's answer (\<open>None\<close> when the address is
  rejected or the query throws), the metadata that was fetched, the platform of
  \<open>loadKeypair\<close>, the lines typed on the terminal, and the network.
\<close>

record CleanEnv =
  tokenAccounts :: "ParsedTokenAccount list option"
  metadataMap :: "string \<rightharpoonup> TokenMetadata"
  keypairEnv :: KeypairEnv
  stdin :: "string list"
  connection :: Connection

datatype Outcome =
    NothingToClean
  | DryRunListed "TokenAccount list"
  | Fatal Error
  | AwaitingConfirmation
  | Aborted
  | Interactive "InteractiveState run"
  | Batch ProcState

definition cleanDust :: "string \<Rightarrow> CleanOptions \<Rightarrow> CleanEnv \<Rightarrow> Outcome" where
  "cleanDust walletAddress options env =
     (case tokenAccounts env of
        None \<Rightarrow> Fatal LedgerQueryFailure
      | Some value \<Rightarrow>
          (let accounts = map (buildAccount (metadataMap env)) value;
               todo = toProcess (burn options) accounts
           in if todo = [] then NothingToClean
              else if dryRun options then DryRunListed todo
              else case keypair options of
                     None \<Rightarrow> Fatal KeypairRequired
                   | Some keypairPath \<Rightarrow>
                       if keypairPath = [] then Fatal KeypairRequired
                       else case loadKeypair (keypairEnv env) keypairPath of
                              Inl err \<Rightarrow> Fatal err
                            | Inr kp \<Rightarrow>
                                if publicKey kp \<noteq> walletAddress then Fatal AuthorizationMismatch
                                else if interactive options
                                then Interactive (interactiveClean (connection env) kp todo (stdin env))
                                else if \<not> yes options
                                then (case stdin env of
                                        [] \<Rightarrow> AwaitingConfirmation
                                      | answer # others \<Rightarrow>
                                          if toLowerCase answer \<noteq> ''y'' then Aborted
                                          else Batch (batchProcess (connection env) kp todo))
                                else Batch (batchProcess (connection env) kp todo)))"

text \<open>
  The transactions a run has sent, and its exit status: 1 after a fatal error, 0 after a
  run that came to its end, none for a run that stays at a question.
\<close>

fun submissions :: "Outcome \<Rightarrow> Transaction list" where
  "submissions (Interactive (Finished st)) = submitted st"
| "submissions (Interactive (AwaitingInput st)) = submitted st"
| "submissions (Batch st) = submitted st"
| "submissions _ = []"

fun exitStatus :: "Outcome \<Rightarrow> nat option" where
  "exitStatus (Fatal err) = Some 1"
| "exitStatus AwaitingConfirmation = None"
| "exitStatus (Interactive (AwaitingInput st)) = None"
| "exitStatus _ = Some 0"

section \<open>Reference definitions\<close>

text \<open>
  Rule 1 of the classifier as a predicate: some spam indicator occurs in the lower-cased
  name or symbol. Absent metadata never matches.
\<close>

definition spamMatch :: "TokenMetadata option \<Rightarrow> bool" where
  "spamMatch md =
     (case md of
        None \<Rightarrow> False
      | Some m \<Rightarrow>
          (\<exists>indicator \<in> set SPAM_INDICATORS.
             str_includes (toLowerCase (name m)) indicator
             \<or> str_includes (toLowerCase (symbol m)) indicator))"

text \<open>The five rules in their order, the first that matches wins.\<close>

definition fiveRules :: "bool \<Rightarrow> bool \<Rightarrow> bool \<Rightarrow> bool \<Rightarrow> RiskLevel" where
  "fiveRules spam micro zero small =
     (if spam then HIGH else if micro then HIGH else if zero then LOW
      else if small then MEDIUM else UNKNOWN)"

text \<open>
  The five rules on the exact quotient \<open>rawBalance / 10^decimals\<close>, as the specification
  words them.
\<close>

definition classifyExact :: "int \<Rightarrow> nat \<Rightarrow> TokenMetadata option \<Rightarrow> RiskLevel" where
  "classifyExact rawBalance dec md =
     (let normalized = (of_int rawBalance :: rat) / 10 ^ dec
      in fiveRules (spamMatch md) (0 < normalized \<and> normalized < 1 / 10000)
           (rawBalance = 0) (normalized < 1))"

text \<open>The five rules on the quotient as the program computes it, in double precision.\<close>

definition classifyDouble :: "int \<Rightarrow> nat \<Rightarrow> TokenMetadata option \<Rightarrow> RiskLevel" where
  "classifyDouble rawBalance dec md =
     (let normalized = fdiv (Number rawBalance) (Math_pow10 dec)
      in fiveRules (spamMatch md)
           (fgt normalized (Finite 0) \<and> flt normalized (round_double (1 / 10000)))
           (rawBalance = 0) (flt normalized (Finite 1)))"

text \<open>
  The batches whose submission confirmed, the submissions being numbered from \<open>k\<close> on.
\<close>

fun confirmedFrom :: "Connection \<Rightarrow> Keypair \<Rightarrow> nat \<Rightarrow> TokenAccount list list \<Rightarrow> TokenAccount list list" where
  "confirmedFrom conn kp k [] = []"
| "confirmedFrom conn kp k (batch # rest) =
     (if conn k (batchTransaction kp batch) = None then [] else [batch])
     @ confirmedFrom conn kp (Suc k) rest"

text \<open>
  The interactive processor as the specification words it: three modes, four commands.
  \<open>parseAnswer\<close> is the \<open>switch\<close> of the program on the lower-cased answer;
  \<open>modeStep\<close> gives, for a command read in mode \<open>ASK\<close>, whether the holding is
  processed and the next mode.
\<close>

datatype Mode = ASK | AUTO_ALL | SKIP_ALL

datatype Command = CmdYes | CmdAll | CmdQuit | CmdOther

definition parseAnswer :: "string \<Rightarrow> Command" where
  "parseAnswer answer =
     (let a = toLowerCase answer
      in if a = ''y'' \<or> a = ''yes'' then CmdYes
         else if a = ''a'' \<or> a = ''all'' then CmdAll
         else if a = ''q'' \<or> a = ''quit'' then CmdQuit
         else CmdOther)"

fun modeStep :: "Command \<Rightarrow> bool \<times> Mode" where
  "modeStep CmdYes = (True, ASK)"
| "modeStep CmdAll = (True, AUTO_ALL)"
| "modeStep CmdQuit = (False, SKIP_ALL)"
| "modeStep CmdOther = (False, ASK)"

text \<open>
  The machine over \<open>n\<close> remaining holdings, the next one numbered \<open>i + 1\<close>: it returns
  the numbers of the processed and of the skipped holdings.
\<close>

fun tally :: "bool \<Rightarrow> nat \<Rightarrow> nat list \<times> nat list \<Rightarrow> nat list \<times> nat list" where
  "tally True k (ps, ss) = (ps @ [k], ss)"
| "tally False k (ps, ss) = (ps, ss @ [k])"

fun machine :: "Mode \<Rightarrow> nat \<Rightarrow> nat \<Rightarrow> string list \<Rightarrow> nat list \<times> nat list \<Rightarrow> (nat list \<times> nat list) run" where
  "machine m i 0 input acc = Finished acc"
| "machine ASK i (Suc n) [] acc = AwaitingInput acc"
| "machine ASK i (Suc n) (answer # others) acc =
     (case modeStep (parseAnswer answer) of
        (process, m') \<Rightarrow> machine m' (i + 1) n others (tally process (i + 1) acc))"
| "machine AUTO_ALL i (Suc n) input acc = machine AUTO_ALL (i + 1) n input (tally True (i + 1) acc)"
| "machine SKIP_ALL i (Suc n) input acc = machine SKIP_ALL (i + 1) n input (tally False (i + 1) acc)"

definition modeOf :: "InteractiveState \<Rightarrow> Mode" where
  "modeOf st = (if processAll st then AUTO_ALL else if skipRemaining st then SKIP_ALL else ASK)"

text \<open>
  An encoding decodes at a path when the file there is read and its trimmed content
  decodes, in that encoding, to a valid secret key.
\<close>

definition decodesJSON :: "KeypairEnv \<Rightarrow> string \<Rightarrow> bool" where
  "decodesJSON env keypairPath =
     (existsSync env (resolvePath env keypairPath)
      \<and> (case readFileSync env (resolvePath env keypairPath) of
            None \<Rightarrow> False
          | Some text \<Rightarrow> Option.bind (JSON_bytes env (trim text)) (fromSecretKey env) \<noteq> None))"

definition decodesBase58 :: "KeypairEnv \<Rightarrow> string \<Rightarrow> bool" where
  "decodesBase58 env keypairPath =
     (existsSync env (resolvePath env keypairPath)
      \<and> (case readFileSync env (resolvePath env keypairPath) of
            None \<Rightarrow> False
          | Some text \<Rightarrow> Option.bind (bs58_decode env (trim text)) (fromSecretKey env) \<noteq> None))"

text \<open>
  What ties the counters and the two logs of the interactive processor together: the
  transactions sent are those of the processed holdings, one holding each, in order; the
  recorded outcomes are the network's answers to them; the counters count the confirmed
  ones, with \<open>2039280 / 10^9\<close> recovered for each.
\<close>

definition linked :: "Connection \<Rightarrow> Keypair \<Rightarrow> TokenAccount list \<Rightarrow> InteractiveState \<Rightarrow> bool" where
  "linked conn kp accounts st \<longleftrightarrow>
     submitted st = map (\<lambda>k. addAccountInstructions kp [] (accounts ! (k - 1))) (processed st)
     \<and> outcomes st = map (\<lambda>(j, t). conn j t) (zip [0 ..< length (submitted st)] (submitted st))
     \<and> totalClosed st = length (filter (\<lambda>r. r \<noteq> None) (outcomes st))
     \<and> totalRecovered st
         = foldl fadd (Finite 0)
             (map (\<lambda>r. fdiv (Finite 2039280) (Finite 1000000000))
                (filter (\<lambda>r. r \<noteq> None) (outcomes st)))"

section \<open>Example data\<close>

definition exampleAccount :: "string \<Rightarrow> RiskLevel \<Rightarrow> TokenAccount" where
  "exampleAccount label l =
     \<lparr>pubkey = label, mint = ''mint'', balance = 0, decimals = 0, isCloseable = True,
      metadata = None, riskLevel = l, riskReason = None\<rparr>"

definition exampleThirteen :: "TokenAccount list" where
  "exampleThirteen =
     map (\<lambda>label. exampleAccount label LOW)
       [''h1'', ''h2'', ''h3'', ''h4'', ''h5'', ''h6'', ''h7'', ''h8'', ''h9'', ''h10'',
        ''h11'', ''h12'', ''h13'']"

definition exampleFour :: "TokenAccount list" where
  "exampleFour = map (\<lambda>label. exampleAccount label LOW) [''h1'', ''h2'', ''h3'', ''h4'']"

text \<open>A network on which the second submission of a run fails and every other one confirms.\<close>

definition secondFails :: Connection where
  "secondFails n transaction = (if n = 1 then None else Some ''signature'')"

definition exampleKeypair :: Keypair where
  "exampleKeypair = \<lparr>publicKey = ''W'', secretKey = [1, 2, 3]\<rparr>"

definition exampleLedger :: "ParsedTokenAccount list" where
  "exampleLedger =
     [\<lparr>account_pubkey = ''A'', info_mint = ''plain'', info_amount = 0, info_decimals = 6\<rparr>,
      \<lparr>account_pubkey = ''B'', info_mint = ''plain'', info_amount = 7, info_decimals = 6\<rparr>,
      \<lparr>account_pubkey = ''C'', info_mint = ''spam'', info_amount = 0, info_decimals = 6\<rparr>]"

definition exampleMetadata :: "string \<rightharpoonup> TokenMetadata" where
  "exampleMetadata =
     [''spam'' \<mapsto> \<lparr>name = ''Claim your REWARD'', symbol = ''RWD'', logoURI = None\<rparr>]"

definition exampleKeypairEnv :: "Keypair option \<Rightarrow> KeypairEnv" where
  "exampleKeypairEnv decoded =
     \<lparr>HOME = Some ''/home/user'',
      path_join = (\<lambda>a b. a @ b),
      path_resolve = (\<lambda>p. ''/cwd/'' @ p),
      existsSync = (\<lambda>p. p = ''/cwd/id.json'' \<or> p = ''/home/user/id.b58''),
      readFileSync =
        (\<lambda>p. if p = ''/cwd/id.json'' then Some '' [1,2,3] ''
             else if p = ''/home/user/id.b58'' then Some ''Ldp ''
             else None),
      JSON_bytes = (\<lambda>c. if c = ''[1,2,3]'' then Some [1, 2, 3] else None),
      bs58_decode = (\<lambda>c. if c = ''Ldp'' then Some [1, 2, 3] else None),
      fromSecretKey = (\<lambda>bytes. if bytes = [1, 2, 3] then decoded else None)\<rparr>"

definition exampleEnv :: "Keypair option \<Rightarrow> string list \<Rightarrow> Connection \<Rightarrow> CleanEnv" where
  "exampleEnv decoded input conn =
     \<lparr>tokenAccounts = Some exampleLedger, metadataMap = exampleMetadata,
      keypairEnv = exampleKeypairEnv decoded, stdin = input, connection = conn\<rparr>"

definition exampleOptions :: "string option \<Rightarrow> bool \<Rightarrow> CleanOptions" where
  "exampleOptions path dry =
     \<lparr>keypair = path, yes = True, interactive = False, dryRun = dry, burn = False\<rparr>"

section \<open>Properties: the cutting into batches\<close>

lemma slice_take_drop: "slice xs i (i + n) = take n (drop i xs)"
  by (simp add: slice_def)




lemma nonempty_batchesFrom: "c \<in> set (batchesFrom xs i) \<Longrightarrow> 0 < length c \<and> length c \<le> 5"
proof (induction xs i rule: batchesFrom.induct)
  case (1 accounts i)
  show ?case
  proof (cases "i < length accounts")
    case True
    have "c = slice accounts i (i + batchSize) \<or> c \<in> set (batchesFrom accounts (i + batchSize))"
      using "1.prems" True by (subst (asm) batchesFrom.simps) simp
    then show ?thesis
      using "1.IH" True by (auto simp: slice_take_drop batchSize_def)
  next
    case False
    then show ?thesis using "1.prems" by (subst (asm) batchesFrom.simps) simp
  qed
qed




section \<open>Properties: rounding to double precision\<close>

lemma pow2_powi: "pow2 e = 2 powi e"
  by (simp add: pow2_def power_int_def power_one_over)

lemma bitlen_rat_bounds:
  assumes "0 < (p::int)"
  shows "pow2 (bitlen p - 1) \<le> of_int p" and "(of_int p :: rat) < pow2 (bitlen p)"
proof -
  have b1: "1 \<le> bitlen p" using assms by (auto simp: bitlen_alt_def)
  have "2 ^ nat (bitlen p - 1) \<le> p" and "p < 2 ^ nat (bitlen p)"
    using bitlen_bounds [OF assms] by auto
  then have "(of_int (2 ^ nat (bitlen p - 1)) :: rat) \<le> of_int p"
    and "(of_int p :: rat) < of_int (2 ^ nat (bitlen p))"
    by (simp_all only: of_int_le_iff of_int_less_iff)
  then show "pow2 (bitlen p - 1) \<le> of_int p" and "(of_int p :: rat) < pow2 (bitlen p)"
    using b1 by (simp_all add: pow2_def)
qed

lemma ilog2_bounds:
  assumes "0 < x"
  shows "pow2 (ilog2 x) \<le> x \<and> x < pow2 (ilog2 x + 1)"
proof -
  obtain p q where pq: "quotient_of x = (p, q)" by force
  have q: "0 < q" using quotient_of_denom_pos [OF pq] .
  have x: "x = of_int p / of_int q" using quotient_of_div [OF pq] .
  have p: "0 < p" using assms q unfolding x by (simp add: zero_less_divide_iff)
  define c where "c = bitlen p - bitlen q"
  have qr: "0 < (of_int q :: rat)" using q by simp
  have up: "x < pow2 (c + 1)"
  proof -
    have "of_int p < pow2 (bitlen p)" using bitlen_rat_bounds(2) [OF p] .
    also have "\<dots> = pow2 (c + 1) * pow2 (bitlen q - 1)"
      by (simp add: pow2_powi c_def flip: power_int_add)
    also have "\<dots> \<le> pow2 (c + 1) * of_int q"
      using bitlen_rat_bounds(1) [OF q] by (intro mult_left_mono) (simp_all add: pow2_powi)
    finally show ?thesis using qr unfolding x by (simp add: pos_divide_less_eq)
  qed
  have lo: "pow2 (c - 1) \<le> x"
  proof -
    have "pow2 (c - 1) * of_int q \<le> pow2 (c - 1) * pow2 (bitlen q)"
      using bitlen_rat_bounds(2) [OF q] by (intro mult_left_mono) (simp_all add: pow2_powi)
    also have "\<dots> = pow2 (bitlen p - 1)"
      by (simp add: pow2_powi c_def flip: power_int_add)
    also have "\<dots> \<le> of_int p" using bitlen_rat_bounds(1) [OF p] .
    finally show ?thesis using qr unfolding x by (simp add: pos_le_divide_eq)
  qed
  show ?thesis
    using up lo by (auto simp: ilog2_def pq Let_def c_def not_le)
qed

lemma ilog2_eq:
  assumes "0 < x" "pow2 e \<le> x" "x < pow2 (e + 1)"
  shows "ilog2 x = e"
proof -
  have b: "pow2 (ilog2 x) \<le> x" "x < pow2 (ilog2 x + 1)"
    using ilog2_bounds [OF assms(1)] by auto
  have "pow2 (ilog2 x) < pow2 (e + 1)" using b(1) assms(3) by simp
  then have 1: "ilog2 x < e + 1"
    unfolding pow2_powi
    by (metis not_less power_int_increasing one_le_numeral)
  have "pow2 e < pow2 (ilog2 x + 1)" using b(2) assms(2) by simp
  then have 2: "e < ilog2 x + 1"
    unfolding pow2_powi
    by (metis not_less power_int_increasing one_le_numeral)
  show ?thesis using 1 2 by simp
qed


lemma round_half_even_near:
  assumes "\<bar>x - of_int n\<bar> < 1 / 2"
  shows "round_half_even x = n"
proof -
  have "\<lfloor>x\<rfloor> = n \<or> \<lfloor>x\<rfloor> = n - 1" using assms by linarith
  then show ?thesis
  proof
    assume f: "\<lfloor>x\<rfloor> = n"
    from assms have "x - of_int n < 1 / 2" by linarith
    then show ?thesis unfolding round_half_even_def f by (simp add: Let_def)
  next
    assume f: "\<lfloor>x\<rfloor> = n - 1"
    from assms have "- (1 / 2) < x - of_int n" by linarith
    then have "1 / 2 < x - of_int (n - 1)" by simp
    then show ?thesis unfolding round_half_even_def f by (simp add: Let_def)
  qed
qed

lemma round_half_even_tie_up:
  assumes "x = of_int n - 1 / 2" "even n"
  shows "round_half_even x = n"
proof -
  have f: "\<lfloor>x\<rfloor> = n - 1" unfolding assms(1) by linarith
  show ?thesis unfolding round_half_even_def f using assms(2) by (simp add: Let_def assms(1))
qed

lemma round_double_pos:
  assumes "0 < x" "pow2 e \<le> x" "x < pow2 (e + 1)" "- 1022 \<le> e"
    and "round_half_even (x / pow2 (e - 52)) = n"
    and "of_int n * pow2 (e - 52) < 2 ^ 1024"
  shows "round_double x = Finite (of_int n * pow2 (e - 52))"
proof -
  have e: "ilog2 x = e" using assms(1-3) by (rule ilog2_eq)
  have a: "\<bar>x\<bar> = x" using assms(1) by simp
  have m: "max e (- 1022) = e" using assms(4) by simp
  have x0: "x \<noteq> 0" using assms(1) by simp
  show ?thesis
    unfolding round_double_def Let_def a e m assms(5)
    using assms(1,6) x0 by (simp add: not_le)
qed

lemma rd1: "round_double 9999999999999999 = Finite 10000000000000000"
proof -
  have r: "round_half_even (9999999999999999 / pow2 (53 - 52)) = 5000000000000000"
    by (rule round_half_even_tie_up) (simp_all add: pow2_def)
  have "round_double 9999999999999999 = Finite (of_int 5000000000000000 * pow2 (53 - 52))"
    by (rule round_double_pos [OF _ _ _ _ r]) (simp_all add: pow2_def)
  then show ?thesis by (simp add: pow2_def)
qed

lemma rd_1e16: "round_double 10000000000000000 = Finite 10000000000000000"
proof -
  have r: "round_half_even (10000000000000000 / pow2 (53 - 52)) = 5000000000000000"
    by (rule round_half_even_near) (simp add: pow2_def)
  have "round_double 10000000000000000 = Finite (of_int 5000000000000000 * pow2 (53 - 52))"
    by (rule round_double_pos [OF _ _ _ _ r]) (simp_all add: pow2_def)
  then show ?thesis by (simp add: pow2_def)
qed

lemma rd_one: "round_double 1 = Finite 1"
proof -
  have r: "round_half_even (1 / pow2 (0 - 52)) = 4503599627370496"
    by (rule round_half_even_near) (simp add: pow2_def)
  have "round_double 1 = Finite (of_int 4503599627370496 * pow2 (0 - 52))"
    by (rule round_double_pos [OF _ _ _ _ r]) (simp_all add: pow2_def)
  then show ?thesis by (simp add: pow2_def)
qed

lemma rd_tenthousandth:
  "round_double (1 / 10000) = Finite (7378697629483821 / 73786976294838206464)"
proof -
  have r: "round_half_even (1 / 10000 / pow2 (- 14 - 52)) = 7378697629483821"
    by (rule round_half_even_near) (simp add: pow2_def)
  have "round_double (1 / 10000) = Finite (of_int 7378697629483821 * pow2 (- 14 - 52))"
    by (rule round_double_pos [OF _ _ _ _ r]) (simp_all add: pow2_def)
  then show ?thesis by (simp add: pow2_def)
qed

lemma round_half_even_of_int: "round_half_even (of_int m) = m"
  by (rule round_half_even_near) simp

lemma round_double_zero: "round_double 0 = Finite 0"
  by (simp add: round_double_def)

lemma round_double_of_int:
  assumes "0 < k" "k < 2 ^ 53"
  shows "round_double (of_int k) = Finite (of_int k)"
proof -
  define e where "e = ilog2 (of_int k)"
  have pos: "0 < (of_int k :: rat)" using assms(1) by simp
  have b: "pow2 e \<le> of_int k" "(of_int k :: rat) < pow2 (e + 1)"
    using ilog2_bounds [OF pos] by (simp_all add: e_def)
  have "pow2 0 \<le> (of_int k :: rat)" using assms(1) by (simp add: pow2_def)
  then have "pow2 0 < pow2 (e + 1)" using b(2) by simp
  then have e0: "0 \<le> e"
    unfolding pow2_powi
    by (metis not_less power_int_increasing one_le_numeral zle_add1_eq_le zless_add1_eq order_less_le)
  have "(of_int k :: rat) < pow2 53" using assms(2) by (simp add: pow2_def flip: of_int_less_iff)
  then have "pow2 e < pow2 53" using b(1) by simp
  then have e53: "e < 53"
    unfolding pow2_powi
    by (metis not_less power_int_increasing one_le_numeral)
  have q: "pow2 (e - 52) = 1 / 2 ^ nat (52 - e)"
  proof (cases "e = 52")
    case True
    then show ?thesis by (simp add: pow2_def)
  next
    case False
    then have "\<not> 0 \<le> e - 52" using e53 by simp
    then show ?thesis by (simp add: pow2_def)
  qed
  have r: "round_half_even (of_int k / pow2 (e - 52)) = k * 2 ^ nat (52 - e)"
  proof -
    have "(of_int k :: rat) / pow2 (e - 52) = of_int (k * 2 ^ nat (52 - e))"
      by (simp add: q)
    then show ?thesis by (simp only: round_half_even_of_int)
  qed
  have v: "(of_int (k * 2 ^ nat (52 - e)) :: rat) * pow2 (e - 52) = of_int k"
    by (simp add: q)
  have lt: "(of_int k :: rat) < 2 ^ 1024"
  proof -
    have "(of_int k :: rat) < 2 ^ 53" using assms(2) by (simp flip: of_int_less_iff)
    also have "\<dots> \<le> 2 ^ 1024" by (rule power_increasing) simp_all
    finally show ?thesis .
  qed
  have "round_double (of_int k) = Finite (of_int (k * 2 ^ nat (52 - e)) * pow2 (e - 52))"
  proof (rule round_double_pos [OF pos b(1) b(2) _ r])
    show "- 1022 \<le> e" using e0 by simp
    show "rat_of_int (k * 2 ^ nat (52 - e)) * pow2 (e - 52) < 2 ^ 1024"
      unfolding v by (rule lt)
  qed
  then show ?thesis by (simp only: v)
qed

section \<open>Properties: the classifier\<close>

lemma spamLoop_iff:
  "spamLoop nm sy inds = (\<exists>indicator \<in> set inds. str_includes nm indicator \<or> str_includes sy indicator)"
  by (induction inds) auto

lemma spamLoop_empty: "spamLoop [] [] SPAM_INDICATORS = False"
  by (simp add: SPAM_INDICATORS_def)

lemma spamLoop_spamMatch:
  "spamLoop (case md of None \<Rightarrow> [] | Some m \<Rightarrow> toLowerCase (name m))
            (case md of None \<Rightarrow> [] | Some m \<Rightarrow> toLowerCase (symbol m)) SPAM_INDICATORS
   = spamMatch md"
proof (cases md)
  case None
  then show ?thesis by (simp add: spamMatch_def spamLoop_empty)
next
  case (Some m)
  then show ?thesis by (simp add: spamMatch_def spamLoop_iff)
qed

lemma level_classifyTokenRisk:
  "level (classifyTokenRisk mt bal dec md) = classifyDouble bal dec md"
  unfolding classifyTokenRisk_def classifyDouble_def Let_def spamLoop_spamMatch fiveRules_def
  by simp

lemma reason_classifyTokenRisk: "reason (classifyTokenRisk mt bal dec md) \<noteq> None"
  unfolding classifyTokenRisk_def Let_def by simp

lemma not_positive_zero_quotient: "\<not> fgt (fdiv (Number 0) d) (Finite 0)"
proof -
  have n: "Number 0 = Finite 0" by (simp add: Number_def round_double_def)
  show ?thesis
    by (cases d) (simp_all add: n fgt_def round_double_def)
qed

lemma classifyDouble_spam: "spamMatch md \<Longrightarrow> classifyDouble bal dec md = HIGH"
  by (simp add: classifyDouble_def fiveRules_def Let_def)

lemma classifyDouble_empty: "\<not> spamMatch md \<Longrightarrow> classifyDouble 0 dec md = LOW"
  using not_positive_zero_quotient [of "Math_pow10 dec"]
  by (simp add: classifyDouble_def fiveRules_def Let_def)

text \<open>
  Claim C2, as stated, at an input where it fails. With raw balance 9999999999999999 and
  16 decimals the exact quotient is below 1, so the five rules on the exact quotient give
  \<open>MEDIUM\<close>. The program converts the balance to a double first, which rounds it to
  \<open>10^16\<close>; the quotient is then exactly 1, and the program answers \<open>UNKNOWN\<close>.
\<close>

theorem classify_exact_counterexample:
  "level (classifyTokenRisk ''mint'' 9999999999999999 16 None) = UNKNOWN
   \<and> classifyExact 9999999999999999 16 None = MEDIUM"
proof -
  have n: "Number 9999999999999999 = Finite 10000000000000000"
    by (simp add: Number_def rd1)
  have p: "Math_pow10 16 = Finite 10000000000000000"
    by (simp add: Math_pow10_def rd_1e16)
  have q: "fdiv (Number 9999999999999999) (Math_pow10 16) = Finite 1"
    by (simp add: n p rd_one)
  have "classifyDouble 9999999999999999 16 None = UNKNOWN"
    by (simp add: classifyDouble_def Let_def q fiveRules_def spamMatch_def fgt_def rd_tenthousandth)
  moreover have "classifyExact 9999999999999999 16 None = MEDIUM"
    by (simp add: classifyExact_def Let_def fiveRules_def spamMatch_def)
  ultimately show ?thesis by (simp add: level_classifyTokenRisk)
qed

text \<open>
  Claim C2, amended. \<open>classifyTokenRisk\<close> is a total function of the balance, the
  decimals and the metadata, and its level is that of the five rules taken in order on the
  quotient computed in double precision: (1) a spam indicator in the lower-cased name or
  symbol gives \<open>HIGH\<close>, whatever the balance, so also for a zero balance; (2) else a
  quotient above 0 and below 0.0001 gives \<open>HIGH\<close>; (3) else a zero balance gives
  \<open>LOW\<close>; (4) else a quotient below 1 gives \<open>MEDIUM\<close>; (5) else \<open>UNKNOWN\<close>. A
  reason is returned in every case.
\<close>

theorem classify_five_rules_double:
  "level (classifyTokenRisk mt bal dec md) = classifyDouble bal dec md
   \<and> reason (classifyTokenRisk mt bal dec md) \<noteq> None
   \<and> (spamMatch md \<longrightarrow> level (classifyTokenRisk mt bal dec md) = HIGH)
   \<and> (\<not> spamMatch md \<and> bal = 0 \<longrightarrow> level (classifyTokenRisk mt bal dec md) = LOW)"
  using classifyDouble_spam [of md bal dec] classifyDouble_empty [of md dec]
  by (auto simp: level_classifyTokenRisk reason_classifyTokenRisk)

theorem classify_five_rules_double_witness:
  "spamMatch (Some \<lparr>name = ''Free AIRDROP'', symbol = ''X'', logoURI = None\<rparr>)
   \<and> level (classifyTokenRisk ''mint'' 0 6
        (Some \<lparr>name = ''Free AIRDROP'', symbol = ''X'', logoURI = None\<rparr>)) = HIGH
   \<and> \<not> spamMatch None
   \<and> level (classifyTokenRisk ''mint'' 0 6 None) = LOW"
proof -
  have s: "spamMatch (Some \<lparr>name = ''Free AIRDROP'', symbol = ''X'', logoURI = None\<rparr>)"
    by code_simp
  have n: "\<not> spamMatch None" by (simp add: spamMatch_def)
  have h: "level (classifyTokenRisk ''mint'' 0 6
        (Some \<lparr>name = ''Free AIRDROP'', symbol = ''X'', logoURI = None\<rparr>)) = HIGH"
    using classify_five_rules_double [of "''mint''" 0 6
        "Some \<lparr>name = ''Free AIRDROP'', symbol = ''X'', logoURI = None\<rparr>"] s
    by blast
  have l: "level (classifyTokenRisk ''mint'' 0 6 None) = LOW"
    using classify_five_rules_double [of "''mint''" 0 6 None] n by blast
  show ?thesis using s n h l by (intro conjI)
qed

section \<open>Properties: the order of the scan\<close>

lemma sortInsert_insort_key:
  "sortInsert (\<lambda>a b. f a - f b) x xs = insort_key f x xs" for f :: "'a \<Rightarrow> int"
  by (induction xs) simp_all

lemma array_sort_sort_key:
  "array_sort (\<lambda>a b. f a - f b) xs = sort_key f xs" for f :: "'a \<Rightarrow> int"
proof -
  have "sortInsert (\<lambda>a b. f a - f b) = insort_key f"
    by (intro ext) (rule sortInsert_insort_key)
  then show ?thesis by (simp add: array_sort_def sort_key_def)
qed

lemma riskCompare_key: "riskCompare = (\<lambda>a b. (riskOrder \<circ> riskLevel) a - (riskOrder \<circ> riskLevel) b)"
  by (intro ext) (simp add: riskCompare_def)

lemma array_sort_riskCompare: "array_sort riskCompare xs = sort_key (riskOrder \<circ> riskLevel) xs"
  unfolding riskCompare_key by (rule array_sort_sort_key)

lemma riskOrder_eq_iff: "riskOrder a = riskOrder b \<longleftrightarrow> a = b"
  by (cases a; cases b) simp_all

lemma array_sort_stable:
  "filter (\<lambda>a. riskLevel a = l) (array_sort riskCompare xs) = filter (\<lambda>a. riskLevel a = l) xs"
proof -
  have "filter (\<lambda>a. (riskOrder \<circ> riskLevel) a = riskOrder l) (sort_key (riskOrder \<circ> riskLevel) xs)
      = filter (\<lambda>a. (riskOrder \<circ> riskLevel) a = riskOrder l) xs"
    by (rule sort_key_stable)
  then show ?thesis by (simp add: array_sort_riskCompare riskOrder_eq_iff)
qed

lemma array_sort_example:
  assumes "riskLevel A = MEDIUM" "riskLevel B = HIGH" "riskLevel C = LOW" "riskLevel D = HIGH"
  shows "array_sort riskCompare [A, B, C, D] = [B, D, A, C]"
  using assms by (simp add: array_sort_def riskCompare_def)

text \<open>
  Claim C3. The account list of the scan is sorted in ascending order of the priorities
  \<open>HIGH = 0\<close>, \<open>MEDIUM = 1\<close>, \<open>LOW = 2\<close>, \<open>UNKNOWN = 3\<close>, and the sort is stable: the
  accounts of any one risk level come in the order the ledger gave them. Four accounts
  A, B, C, D of levels \<open>MEDIUM\<close>, \<open>HIGH\<close>, \<open>LOW\<close>, \<open>HIGH\<close> sort to B, D, A, C.
\<close>

theorem scan_sorted_stable:
  "sorted (map (riskOrder \<circ> riskLevel) (scanDust md raw))
   \<and> (\<forall>l. filter (\<lambda>a. riskLevel a = l) (scanDust md raw)
          = filter (\<lambda>a. riskLevel a = l) (map (buildAccount md) raw))
   \<and> (riskLevel A = MEDIUM \<and> riskLevel B = HIGH \<and> riskLevel C = LOW \<and> riskLevel D = HIGH
        \<longrightarrow> array_sort riskCompare [A, B, C, D] = [B, D, A, C])"
proof -
  have "sorted (map (riskOrder \<circ> riskLevel) (scanDust md raw))"
    unfolding scanDust_def array_sort_riskCompare by (rule sorted_sort_key)
  then show ?thesis
    using array_sort_example [of A B C D]
    by (simp add: scanDust_def array_sort_stable)
qed

theorem scan_sorted_stable_witness:
  "riskLevel (exampleAccount ''A'' MEDIUM) = MEDIUM
   \<and> riskLevel (exampleAccount ''B'' HIGH) = HIGH
   \<and> riskLevel (exampleAccount ''C'' LOW) = LOW
   \<and> riskLevel (exampleAccount ''D'' HIGH) = HIGH
   \<and> map pubkey (array_sort riskCompare
        [exampleAccount ''A'' MEDIUM, exampleAccount ''B'' HIGH,
         exampleAccount ''C'' LOW, exampleAccount ''D'' HIGH])
       = [''B'', ''D'', ''A'', ''C'']"
  using scan_sorted_stable [of Map.empty "[]" "exampleAccount ''A'' MEDIUM"
      "exampleAccount ''B'' HIGH" "exampleAccount ''C'' LOW" "exampleAccount ''D'' HIGH"]
  by (simp add: exampleAccount_def)


section \<open>Properties: what the clean selects\<close>

lemma built_fields:
  "isCloseable (buildAccount md r) = (info_amount r = 0)"
  "balance (buildAccount md r) = info_amount r"
  "pubkey (buildAccount md r) = account_pubkey r"
  "mint (buildAccount md r) = info_mint r"
  "riskLevel (buildAccount md r)
     = classifyDouble (info_amount r) (info_decimals r) (md (info_mint r))"
  by (simp_all add: buildAccount_def Let_def level_classifyTokenRisk)

lemma built_closeable_iff:
  "a \<in> set (map (buildAccount md) raw) \<Longrightarrow> isCloseable a = (balance a = 0)"
  by (auto simp: built_fields)

lemma closeableOf_built:
  "closeableOf (map (buildAccount md) raw)
     = filter (\<lambda>a. balance a = 0) (map (buildAccount md) raw)"
  unfolding closeableOf_def
  by (rule filter_cong [OF refl]) (rule built_closeable_iff)

lemma burnableOf_built:
  "burnableOf b (map (buildAccount md) raw)
     = (if b then filter (\<lambda>a. balance a \<noteq> 0 \<and> (riskLevel a = HIGH \<or> riskLevel a = MEDIUM))
                    (map (buildAccount md) raw)
        else [])"
proof (cases b)
  case True
  have "filter (\<lambda>a. \<not> isCloseable a \<and> (riskLevel a = HIGH \<or> riskLevel a = MEDIUM))
          (map (buildAccount md) raw)
      = filter (\<lambda>a. balance a \<noteq> 0 \<and> (riskLevel a = HIGH \<or> riskLevel a = MEDIUM))
          (map (buildAccount md) raw)"
    by (rule filter_cong [OF refl]) (simp add: built_closeable_iff)
  with True show ?thesis by (simp add: burnableOf_def)
next
  case False
  then show ?thesis by (simp add: burnableOf_def)
qed







lemma example_closeable:
  "filter (\<lambda>a. balance a = 0) (map (buildAccount exampleMetadata) exampleLedger)
      = [buildAccount exampleMetadata
           \<lparr>account_pubkey = ''A'', info_mint = ''plain'', info_amount = 0, info_decimals = 6\<rparr>,
         buildAccount exampleMetadata
           \<lparr>account_pubkey = ''C'', info_mint = ''spam'', info_amount = 0, info_decimals = 6\<rparr>]"
  unfolding exampleLedger_def by (simp add: built_fields)


section \<open>Properties: the instructions of one holding\<close>

lemma addAccountInstructions_append:
  "addAccountInstructions kp tx a = tx @ addAccountInstructions kp [] a"
  by (simp add: addAccountInstructions_def Let_def)

lemma foldl_addAccountInstructions:
  "foldl (addAccountInstructions kp) tx batch
     = tx @ concat (map (addAccountInstructions kp []) batch)"
proof (induction batch arbitrary: tx)
  case Nil
  then show ?case by simp
next
  case (Cons a batch)
  have "foldl (addAccountInstructions kp) (addAccountInstructions kp tx a) batch
      = addAccountInstructions kp tx a @ concat (map (addAccountInstructions kp []) batch)"
    by (rule Cons.IH)
  then show ?case
    using addAccountInstructions_append [of kp tx a] by simp
qed

lemma batchTransaction_concat:
  "batchTransaction kp batch = concat (map (addAccountInstructions kp []) batch)"
  by (simp add: batchTransaction_def foldl_addAccountInstructions)

lemma toProcess_balance_flag:
  assumes "h \<in> set (toProcess b (map (buildAccount md) raw))" "balance h \<noteq> 0"
  shows "b"
proof (rule ccontr)
  assume "\<not> b"
  then have "\<forall>a \<in> set (toProcess b (map (buildAccount md) raw)). balance a = 0"
    by (simp add: toProcess_def closeableOf_built burnableOf_built)
  with assms show False by blast
qed

text \<open>
  Claim C4. For a holding with a balance above 0, processed with the burn flag set, the
  instructions are one burn of exactly the whole balance of its mint from its address,
  authorised by the keypair, then one close whose destination and authority are both the
  keypair's public key. For a holding with balance 0 they are the close alone. In the clean
  command a holding with a balance only reaches the builder when the burn flag is set, and
  a batch's transaction is its holdings' instructions put end to end.
\<close>

theorem build_instructions:
  "(burnBeforeClose \<and> 0 < balance h \<longrightarrow>
      addAccountInstructions kp [] h
        = [BurnInstruction (pubkey h) (mint h) (publicKey kp) (balance h),
           CloseAccountInstruction (pubkey h) (publicKey kp) (publicKey kp)])
   \<and> (balance h = 0 \<longrightarrow>
      addAccountInstructions kp [] h
        = [CloseAccountInstruction (pubkey h) (publicKey kp) (publicKey kp)])
   \<and> (h \<in> set (toProcess burnBeforeClose (map (buildAccount md) raw)) \<and> 0 < balance h
        \<longrightarrow> burnBeforeClose)
   \<and> batchTransaction kp batch = concat (map (addAccountInstructions kp []) batch)"
  using toProcess_balance_flag [of h burnBeforeClose md raw]
  by (auto simp: addAccountInstructions_def Let_def batchTransaction_concat)

theorem build_instructions_witness:
  "0 < balance (buildAccount exampleMetadata (exampleLedger ! 1))
   \<and> addAccountInstructions \<lparr>publicKey = ''W'', secretKey = []\<rparr> []
        (buildAccount exampleMetadata (exampleLedger ! 1))
       = [BurnInstruction ''B'' ''plain'' ''W'' 7, CloseAccountInstruction ''B'' ''W'' ''W'']
   \<and> balance (buildAccount exampleMetadata (exampleLedger ! 0)) = 0
   \<and> addAccountInstructions \<lparr>publicKey = ''W'', secretKey = []\<rparr> []
        (buildAccount exampleMetadata (exampleLedger ! 0))
       = [CloseAccountInstruction ''A'' ''W'' ''W'']"
proof -
  have b1: "0 < balance (buildAccount exampleMetadata (exampleLedger ! 1))"
    and b0: "balance (buildAccount exampleMetadata (exampleLedger ! 0)) = 0"
    by (simp_all add: exampleLedger_def built_fields(2))
  have i1: "addAccountInstructions \<lparr>publicKey = ''W'', secretKey = []\<rparr> []
        (buildAccount exampleMetadata (exampleLedger ! 1))
       = [BurnInstruction ''B'' ''plain'' ''W'' 7, CloseAccountInstruction ''B'' ''W'' ''W'']"
    using build_instructions [of True "buildAccount exampleMetadata (exampleLedger ! 1)"
        "\<lparr>publicKey = ''W'', secretKey = []\<rparr>" exampleMetadata exampleLedger "[]"] b1
    by (simp add: exampleLedger_def built_fields(2-4))
  have i0: "addAccountInstructions \<lparr>publicKey = ''W'', secretKey = []\<rparr> []
        (buildAccount exampleMetadata (exampleLedger ! 0))
       = [CloseAccountInstruction ''A'' ''W'' ''W'']"
    using build_instructions [of True "buildAccount exampleMetadata (exampleLedger ! 0)"
        "\<lparr>publicKey = ''W'', secretKey = []\<rparr>" exampleMetadata exampleLedger "[]"] b0
    by (simp add: exampleLedger_def built_fields(2-4))
  show ?thesis using b1 b0 i1 i0 by (intro conjI)
qed

section \<open>Properties: loading the keypair\<close>

lemma loadKeypair_content:
  assumes "existsSync env (resolvePath env p)"
    and "readFileSync env (resolvePath env p) = Some text"
  shows "loadKeypair env p =
     (case Option.bind (JSON_bytes env (trim text)) (fromSecretKey env) of
        Some kp \<Rightarrow> Inr kp
      | None \<Rightarrow>
          (case Option.bind (bs58_decode env (trim text)) (fromSecretKey env) of
             Some kp \<Rightarrow> Inr kp
           | None \<Rightarrow> Inl InvalidKeypairFormat))"
  using assms by (simp add: loadKeypair_def Let_def)

lemma loadKeypair_invalid_format:
  "loadKeypair env p = Inl InvalidKeypairFormat \<longleftrightarrow>
     (\<exists>text. existsSync env (resolvePath env p)
        \<and> readFileSync env (resolvePath env p) = Some text
        \<and> Option.bind (JSON_bytes env (trim text)) (fromSecretKey env) = None
        \<and> Option.bind (bs58_decode env (trim text)) (fromSecretKey env) = None)"
  by (auto simp: loadKeypair_def Let_def split: option.splits)

text \<open>
  Claim C9, as stated, at an input where it fails. At a path where there is no file neither
  encoding decodes, and \<open>loadKeypair\<close> fails, but with the error of the missing file
  and not with \<open>InvalidKeypairFormat\<close>: it has tried neither encoding.
\<close>

theorem load_keypair_missing_file_counterexample:
  "\<not> decodesJSON (exampleKeypairEnv None) ''missing.json''
   \<and> \<not> decodesBase58 (exampleKeypairEnv None) ''missing.json''
   \<and> loadKeypair (exampleKeypairEnv None) ''missing.json''
       = Inl (KeypairFileNotFound ''/cwd/missing.json'')
   \<and> loadKeypair (exampleKeypairEnv None) ''missing.json'' \<noteq> Inl InvalidKeypairFormat"
proof -
  have r: "resolvePath (exampleKeypairEnv None) ''missing.json'' = ''/cwd/missing.json''"
    by (simp add: resolvePath_def exampleKeypairEnv_def)
  have e: "\<not> existsSync (exampleKeypairEnv None) ''/cwd/missing.json''"
    by (simp add: exampleKeypairEnv_def)
  show ?thesis
    using e by (simp add: decodesJSON_def decodesBase58_def loadKeypair_def Let_def r)
qed

text \<open>
  Claim C9, amended. When the keypair file exists and is read, \<open>loadKeypair\<close> tries on
  its trimmed content the JSON byte array first and the base58 string second, returns the
  keypair of the first of the two that decodes to a valid secret key, and fails with
  \<open>InvalidKeypairFormat\<close> exactly when neither does. When there is no file at the path it
  fails with the error of the missing file, before any decoding. So it fails with
  \<open>InvalidKeypairFormat\<close> if and only if the file was read and neither encoding decoded.
\<close>

theorem load_keypair_encodings:
  "(existsSync env (resolvePath env p) \<and> readFileSync env (resolvePath env p) = Some text \<longrightarrow>
      (Option.bind (JSON_bytes env (trim text)) (fromSecretKey env) = Some kp
         \<longrightarrow> loadKeypair env p = Inr kp)
      \<and> (Option.bind (JSON_bytes env (trim text)) (fromSecretKey env) = None
           \<and> Option.bind (bs58_decode env (trim text)) (fromSecretKey env) = Some kp
         \<longrightarrow> loadKeypair env p = Inr kp)
      \<and> (loadKeypair env p = Inl InvalidKeypairFormat \<longleftrightarrow>
           Option.bind (JSON_bytes env (trim text)) (fromSecretKey env) = None
           \<and> Option.bind (bs58_decode env (trim text)) (fromSecretKey env) = None))
   \<and> (\<not> existsSync env (resolvePath env p) \<longrightarrow>
        loadKeypair env p = Inl (KeypairFileNotFound (resolvePath env p)))
   \<and> (loadKeypair env p = Inl InvalidKeypairFormat \<longleftrightarrow>
        (\<exists>content. existsSync env (resolvePath env p)
           \<and> readFileSync env (resolvePath env p) = Some content
           \<and> Option.bind (JSON_bytes env (trim content)) (fromSecretKey env) = None
           \<and> Option.bind (bs58_decode env (trim content)) (fromSecretKey env) = None))"
proof (intro conjI impI)
  assume a: "existsSync env (resolvePath env p) \<and> readFileSync env (resolvePath env p) = Some text"
  then have c: "loadKeypair env p =
     (case Option.bind (JSON_bytes env (trim text)) (fromSecretKey env) of
        Some kp \<Rightarrow> Inr kp
      | None \<Rightarrow>
          (case Option.bind (bs58_decode env (trim text)) (fromSecretKey env) of
             Some kp \<Rightarrow> Inr kp
           | None \<Rightarrow> Inl InvalidKeypairFormat))"
    by (simp add: loadKeypair_content)
  show "loadKeypair env p = Inr kp"
    if "Option.bind (JSON_bytes env (trim text)) (fromSecretKey env) = Some kp"
    unfolding c using that by simp
  show "loadKeypair env p = Inr kp"
    if "Option.bind (JSON_bytes env (trim text)) (fromSecretKey env) = None
           \<and> Option.bind (bs58_decode env (trim text)) (fromSecretKey env) = Some kp"
    unfolding c using that by simp
  show "loadKeypair env p = Inl InvalidKeypairFormat \<longleftrightarrow>
           Option.bind (JSON_bytes env (trim text)) (fromSecretKey env) = None
           \<and> Option.bind (bs58_decode env (trim text)) (fromSecretKey env) = None"
    unfolding c by (auto split: option.splits)
next
  assume "\<not> existsSync env (resolvePath env p)"
  then show "loadKeypair env p = Inl (KeypairFileNotFound (resolvePath env p))"
    by (simp add: loadKeypair_def Let_def)
next
  show "loadKeypair env p = Inl InvalidKeypairFormat \<longleftrightarrow>
        (\<exists>content. existsSync env (resolvePath env p)
           \<and> readFileSync env (resolvePath env p) = Some content
           \<and> Option.bind (JSON_bytes env (trim content)) (fromSecretKey env) = None
           \<and> Option.bind (bs58_decode env (trim content)) (fromSecretKey env) = None)"
    by (rule loadKeypair_invalid_format)
qed

lemma example_resolvePath:
  "resolvePath (exampleKeypairEnv d) ''id.json'' = ''/cwd/id.json''"
  "resolvePath (exampleKeypairEnv d) ''~/id.b58'' = ''/home/user/id.b58''"
  by (simp_all add: resolvePath_def exampleKeypairEnv_def)

lemma example_trim: "trim '' [1,2,3] '' = ''[1,2,3]''" "trim ''Ldp '' = ''Ldp''"
  by code_simp+

lemma example_file_json:
  "existsSync (exampleKeypairEnv d) (resolvePath (exampleKeypairEnv d) ''id.json'')"
  "readFileSync (exampleKeypairEnv d) (resolvePath (exampleKeypairEnv d) ''id.json'')
      = Some '' [1,2,3] ''"
  unfolding example_resolvePath by (simp_all add: exampleKeypairEnv_def)

lemma example_file_b58:
  "existsSync (exampleKeypairEnv d) (resolvePath (exampleKeypairEnv d) ''~/id.b58'')"
  "readFileSync (exampleKeypairEnv d) (resolvePath (exampleKeypairEnv d) ''~/id.b58'')
      = Some ''Ldp ''"
  unfolding example_resolvePath by (simp_all add: exampleKeypairEnv_def)

lemma example_decoders:
  "Option.bind (JSON_bytes (exampleKeypairEnv d) ''[1,2,3]'') (fromSecretKey (exampleKeypairEnv d)) = d"
  "Option.bind (JSON_bytes (exampleKeypairEnv d) ''Ldp'') (fromSecretKey (exampleKeypairEnv d)) = None"
  "Option.bind (bs58_decode (exampleKeypairEnv d) ''Ldp'') (fromSecretKey (exampleKeypairEnv d)) = d"
  "Option.bind (bs58_decode (exampleKeypairEnv d) ''[1,2,3]'') (fromSecretKey (exampleKeypairEnv d)) = None"
  by (simp_all add: exampleKeypairEnv_def)

lemma example_loadKeypair:
  "loadKeypair (exampleKeypairEnv d) ''id.json''
     = (case d of Some kp \<Rightarrow> Inr kp | None \<Rightarrow> Inl InvalidKeypairFormat)"
  unfolding loadKeypair_content [OF example_file_json] example_trim example_decoders
  by (simp split: option.splits)

theorem load_keypair_encodings_witness:
  "existsSync (exampleKeypairEnv (Some exampleKeypair))
     (resolvePath (exampleKeypairEnv (Some exampleKeypair)) ''id.json'')
   \<and> readFileSync (exampleKeypairEnv (Some exampleKeypair))
     (resolvePath (exampleKeypairEnv (Some exampleKeypair)) ''id.json'') = Some '' [1,2,3] ''
   \<and> loadKeypair (exampleKeypairEnv (Some exampleKeypair)) ''id.json'' = Inr exampleKeypair
   \<and> loadKeypair (exampleKeypairEnv (Some exampleKeypair)) ''~/id.b58'' = Inr exampleKeypair
   \<and> loadKeypair (exampleKeypairEnv None) ''id.json'' = Inl InvalidKeypairFormat"
proof -
  let ?K = "exampleKeypair"
  have j: "loadKeypair (exampleKeypairEnv (Some ?K)) ''id.json'' = Inr ?K"
    using load_keypair_encodings [of "exampleKeypairEnv (Some ?K)" "''id.json''"
        "'' [1,2,3] ''" ?K, THEN conjunct1] example_file_json [of "Some ?K"]
    by (simp add: example_trim example_decoders)
  have b: "loadKeypair (exampleKeypairEnv (Some ?K)) ''~/id.b58'' = Inr ?K"
    using load_keypair_encodings [of "exampleKeypairEnv (Some ?K)" "''~/id.b58''"
        "''Ldp ''" ?K, THEN conjunct1] example_file_b58 [of "Some ?K"]
    by (simp add: example_trim example_decoders)
  have n: "loadKeypair (exampleKeypairEnv None) ''id.json'' = Inl InvalidKeypairFormat"
    using load_keypair_encodings [of "exampleKeypairEnv None" "''id.json''"
        "'' [1,2,3] ''" ?K, THEN conjunct1] example_file_json [of None]
    by (simp add: example_trim example_decoders)
  show ?thesis using example_file_json [of "Some ?K"] j b n by (intro conjI)
qed

section \<open>Properties: the clean command\<close>

lemma example_toProcess:
  "toProcess False (map (buildAccount exampleMetadata) exampleLedger)
      = [buildAccount exampleMetadata
           \<lparr>account_pubkey = ''A'', info_mint = ''plain'', info_amount = 0, info_decimals = 6\<rparr>,
         buildAccount exampleMetadata
           \<lparr>account_pubkey = ''C'', info_mint = ''spam'', info_amount = 0, info_decimals = 6\<rparr>]"
  by (simp add: toProcess_def closeableOf_built burnableOf_built example_closeable)

lemma cleanDust_reached:
  assumes "tokenAccounts env = Some raw"
    and "toProcess (burn options) (map (buildAccount (metadataMap env)) raw) \<noteq> []"
    and "\<not> dryRun options"
    and "keypair options = Some p" "p \<noteq> []"
    and "loadKeypair (keypairEnv env) p = Inr kp"
  shows "cleanDust w options env =
     (let todo = toProcess (burn options) (map (buildAccount (metadataMap env)) raw)
      in if publicKey kp \<noteq> w then Fatal AuthorizationMismatch
         else if interactive options
         then Interactive (interactiveClean (connection env) kp todo (stdin env))
         else if \<not> yes options
         then (case stdin env of
                 [] \<Rightarrow> AwaitingConfirmation
               | answer # others \<Rightarrow>
                   if toLowerCase answer \<noteq> ''y'' then Aborted
                   else Batch (batchProcess (connection env) kp todo))
         else Batch (batchProcess (connection env) kp todo))"
  using assms by (simp add: cleanDust_def Let_def)

lemma cleanDust_submissions_authorized:
  assumes "submissions (cleanDust w options env) \<noteq> []"
  shows "\<exists>p kp. keypair options = Some p
           \<and> loadKeypair (keypairEnv env) p = Inr kp \<and> publicKey kp = w"
  using assms
  by (auto simp: cleanDust_def Let_def split: option.splits if_splits sum.splits list.splits)

text \<open>
  Claim C1. In a run of the clean command that gets as far as its keypair (the ledger
  answered, there is something to process, it is not a dry run, the keypair was loaded),
  a keypair whose public key is not the wallet address ends the run with
  \<open>AuthorizationMismatch\<close> and exit status 1, and nothing was submitted: the processors,
  the only places where instructions are built, are never entered. Conversely a run that
  submitted anything had loaded a keypair whose public key is the wallet address.
\<close>

theorem identity_gate:
  "(tokenAccounts env = Some raw
      \<and> toProcess (burn options) (map (buildAccount (metadataMap env)) raw) \<noteq> []
      \<and> \<not> dryRun options
      \<and> keypair options = Some p \<and> p \<noteq> []
      \<and> loadKeypair (keypairEnv env) p = Inr kp
      \<and> publicKey kp \<noteq> w
    \<longrightarrow> cleanDust w options env = Fatal AuthorizationMismatch
        \<and> submissions (cleanDust w options env) = []
        \<and> exitStatus (cleanDust w options env) = Some 1)
   \<and> (submissions (cleanDust w options env) \<noteq> []
    \<longrightarrow> (\<exists>p' kp'. keypair options = Some p'
           \<and> loadKeypair (keypairEnv env) p' = Inr kp' \<and> publicKey kp' = w))"
proof (intro conjI impI)
  assume a: "tokenAccounts env = Some raw
      \<and> toProcess (burn options) (map (buildAccount (metadataMap env)) raw) \<noteq> []
      \<and> \<not> dryRun options
      \<and> keypair options = Some p \<and> p \<noteq> []
      \<and> loadKeypair (keypairEnv env) p = Inr kp
      \<and> publicKey kp \<noteq> w"
  then have c: "cleanDust w options env = Fatal AuthorizationMismatch"
    using cleanDust_reached [of env raw options p kp w] by (simp add: Let_def)
  show "cleanDust w options env = Fatal AuthorizationMismatch" by (rule c)
  show "submissions (cleanDust w options env) = []" by (simp add: c)
  show "exitStatus (cleanDust w options env) = Some 1" by (simp add: c)
next
  assume "submissions (cleanDust w options env) \<noteq> []"
  then show "\<exists>p' kp'. keypair options = Some p'
           \<and> loadKeypair (keypairEnv env) p' = Inr kp' \<and> publicKey kp' = w"
    by (rule cleanDust_submissions_authorized)
qed

lemma example_env_fields:
  "tokenAccounts (exampleEnv d input conn) = Some exampleLedger"
  "metadataMap (exampleEnv d input conn) = exampleMetadata"
  "keypairEnv (exampleEnv d input conn) = exampleKeypairEnv d"
  "stdin (exampleEnv d input conn) = input"
  "connection (exampleEnv d input conn) = conn"
  by (simp_all add: exampleEnv_def)

lemma example_options_fields:
  "keypair (exampleOptions path dry) = path"
  "yes (exampleOptions path dry) = True"
  "interactive (exampleOptions path dry) = False"
  "dryRun (exampleOptions path dry) = dry"
  "burn (exampleOptions path dry) = False"
  by (simp_all add: exampleOptions_def)

theorem identity_gate_witness:
  "tokenAccounts (exampleEnv (Some \<lparr>publicKey = ''Mallory'', secretKey = [1, 2, 3]\<rparr>) [] (\<lambda>n t. None))
      = Some exampleLedger
   \<and> toProcess (burn (exampleOptions (Some ''id.json'') False))
        (map (buildAccount (metadataMap
           (exampleEnv (Some \<lparr>publicKey = ''Mallory'', secretKey = [1, 2, 3]\<rparr>) [] (\<lambda>n t. None))))
           exampleLedger) \<noteq> []
   \<and> loadKeypair (keypairEnv
        (exampleEnv (Some \<lparr>publicKey = ''Mallory'', secretKey = [1, 2, 3]\<rparr>) [] (\<lambda>n t. None)))
        ''id.json'' = Inr \<lparr>publicKey = ''Mallory'', secretKey = [1, 2, 3]\<rparr>
   \<and> cleanDust ''Alice'' (exampleOptions (Some ''id.json'') False)
        (exampleEnv (Some \<lparr>publicKey = ''Mallory'', secretKey = [1, 2, 3]\<rparr>) [] (\<lambda>n t. None))
       = Fatal AuthorizationMismatch
   \<and> submissions (cleanDust ''Alice'' (exampleOptions (Some ''id.json'') False)
        (exampleEnv (Some \<lparr>publicKey = ''Mallory'', secretKey = [1, 2, 3]\<rparr>) [] (\<lambda>n t. None)))
       = []"
proof -
  let ?K = "\<lparr>publicKey = ''Mallory'', secretKey = [1, 2, 3]\<rparr>"
  let ?E = "exampleEnv (Some ?K) [] (\<lambda>n t. None)"
  let ?O = "exampleOptions (Some ''id.json'') False"
  have h1: "tokenAccounts ?E = Some exampleLedger" by (simp add: example_env_fields)
  have h2: "toProcess (burn ?O) (map (buildAccount (metadataMap ?E)) exampleLedger) \<noteq> []"
    by (simp add: example_env_fields example_options_fields example_toProcess)
  have h3: "\<not> dryRun ?O" by (simp add: example_options_fields)
  have h4: "keypair ?O = Some ''id.json''" by (simp add: example_options_fields)
  have h5: "loadKeypair (keypairEnv ?E) ''id.json'' = Inr ?K"
    by (simp add: example_env_fields example_loadKeypair)
  have h6: "publicKey ?K \<noteq> ''Alice''" by simp
  have "cleanDust ''Alice'' ?O ?E = Fatal AuthorizationMismatch
        \<and> submissions (cleanDust ''Alice'' ?O ?E) = []
        \<and> exitStatus (cleanDust ''Alice'' ?O ?E) = Some 1"
    using identity_gate [of ?E exampleLedger ?O "''id.json''" ?K "''Alice''", THEN conjunct1]
      h1 h2 h3 h4 h5 h6 by simp
  then show ?thesis using h1 h2 h5 by (intro conjI) simp_all
qed

lemma cleanDust_dry:
  assumes "tokenAccounts env = Some raw"
  shows "cleanDust w (options\<lparr>dryRun := True\<rparr>) env =
     (if toProcess (burn options) (map (buildAccount (metadataMap env)) raw) = []
      then NothingToClean
      else DryRunListed (toProcess (burn options) (map (buildAccount (metadataMap env)) raw)))"
  using assms by (simp add: cleanDust_def Let_def)

text \<open>
  Claim C8, as stated, at an input where it fails. With no keypair option the dry run lists
  the accounts and exits with status 0, and the live run on the same ledger answer stops
  with \<open>KeypairRequired\<close> and status 1. Neither run submits anything, so what tells them
  apart is not the absence of submissions.
\<close>

theorem dry_run_counterexample:
  "exitStatus (cleanDust ''Alice'' (exampleOptions None True) (exampleEnv None [] (\<lambda>n t. None))) = Some 0
   \<and> exitStatus (cleanDust ''Alice'' (exampleOptions None False) (exampleEnv None [] (\<lambda>n t. None))) = Some 1
   \<and> submissions (cleanDust ''Alice'' (exampleOptions None True) (exampleEnv None [] (\<lambda>n t. None))) = []
   \<and> submissions (cleanDust ''Alice'' (exampleOptions None False) (exampleEnv None [] (\<lambda>n t. None))) = []
   \<and> cleanDust ''Alice'' (exampleOptions None False) (exampleEnv None [] (\<lambda>n t. None))
       = Fatal KeypairRequired"
proof -
  let ?E = "exampleEnv None [] (\<lambda>n t. None)"
  have d: "cleanDust ''Alice'' (exampleOptions None True) ?E
      = DryRunListed (toProcess False (map (buildAccount exampleMetadata) exampleLedger))"
    by (simp add: cleanDust_def Let_def example_env_fields example_options_fields example_toProcess)
  have l: "cleanDust ''Alice'' (exampleOptions None False) ?E = Fatal KeypairRequired"
    by (simp add: cleanDust_def Let_def example_env_fields example_options_fields example_toProcess)
  show ?thesis by (simp add: d l)
qed

text \<open>
  Claim C8, amended. For the same ledger answer and metadata, a dry run lists exactly the
  sequence that a live run hands to its processor: same classification, same selection,
  same order. A dry run submits nothing. It returns before the keypair is asked for, loaded
  or compared with the wallet, and before any confirmation; the live run goes on to these
  and, once through them, processes that same sequence interactively or in batches.
\<close>

theorem dry_run_selection:
  "(tokenAccounts env = Some raw \<longrightarrow>
      cleanDust w (options\<lparr>dryRun := True\<rparr>) env =
        (if toProcess (burn options) (map (buildAccount (metadataMap env)) raw) = []
         then NothingToClean
         else DryRunListed (toProcess (burn options) (map (buildAccount (metadataMap env)) raw))))
   \<and> submissions (cleanDust w (options\<lparr>dryRun := True\<rparr>) env) = []
   \<and> (tokenAccounts env = Some raw
        \<and> toProcess (burn options) (map (buildAccount (metadataMap env)) raw) \<noteq> []
        \<and> keypair options = Some p \<and> p \<noteq> []
        \<and> loadKeypair (keypairEnv env) p = Inr kp \<and> publicKey kp = w \<longrightarrow>
      cleanDust w (options\<lparr>dryRun := False\<rparr>) env =
        (if interactive options
         then Interactive (interactiveClean (connection env) kp
                (toProcess (burn options) (map (buildAccount (metadataMap env)) raw)) (stdin env))
         else if \<not> yes options
         then (case stdin env of
                 [] \<Rightarrow> AwaitingConfirmation
               | answer # others \<Rightarrow>
                   if toLowerCase answer \<noteq> ''y'' then Aborted
                   else Batch (batchProcess (connection env) kp
                          (toProcess (burn options) (map (buildAccount (metadataMap env)) raw))))
         else Batch (batchProcess (connection env) kp
                (toProcess (burn options) (map (buildAccount (metadataMap env)) raw)))))"
proof (intro conjI impI)
  assume "tokenAccounts env = Some raw"
  then show "cleanDust w (options\<lparr>dryRun := True\<rparr>) env =
        (if toProcess (burn options) (map (buildAccount (metadataMap env)) raw) = []
         then NothingToClean
         else DryRunListed (toProcess (burn options) (map (buildAccount (metadataMap env)) raw)))"
    by (rule cleanDust_dry)
next
  show "submissions (cleanDust w (options\<lparr>dryRun := True\<rparr>) env) = []"
    by (simp add: cleanDust_def Let_def split: option.splits)
next
  assume a: "tokenAccounts env = Some raw
        \<and> toProcess (burn options) (map (buildAccount (metadataMap env)) raw) \<noteq> []
        \<and> keypair options = Some p \<and> p \<noteq> []
        \<and> loadKeypair (keypairEnv env) p = Inr kp \<and> publicKey kp = w"
  then show "cleanDust w (options\<lparr>dryRun := False\<rparr>) env =
        (if interactive options
         then Interactive (interactiveClean (connection env) kp
                (toProcess (burn options) (map (buildAccount (metadataMap env)) raw)) (stdin env))
         else if \<not> yes options
         then (case stdin env of
                 [] \<Rightarrow> AwaitingConfirmation
               | answer # others \<Rightarrow>
                   if toLowerCase answer \<noteq> ''y'' then Aborted
                   else Batch (batchProcess (connection env) kp
                          (toProcess (burn options) (map (buildAccount (metadataMap env)) raw))))
         else Batch (batchProcess (connection env) kp
                (toProcess (burn options) (map (buildAccount (metadataMap env)) raw))))"
    using cleanDust_reached [of env raw "options\<lparr>dryRun := False\<rparr>" p kp w]
    by (simp add: Let_def)
qed

theorem dry_run_selection_witness:
  "tokenAccounts (exampleEnv (Some \<lparr>publicKey = ''Alice'', secretKey = [1, 2, 3]\<rparr>) [] (\<lambda>n t. None))
      = Some exampleLedger
   \<and> loadKeypair (keypairEnv
        (exampleEnv (Some \<lparr>publicKey = ''Alice'', secretKey = [1, 2, 3]\<rparr>) [] (\<lambda>n t. None)))
        ''id.json'' = Inr \<lparr>publicKey = ''Alice'', secretKey = [1, 2, 3]\<rparr>
   \<and> cleanDust ''Alice'' ((exampleOptions (Some ''id.json'') False)\<lparr>dryRun := True\<rparr>)
        (exampleEnv (Some \<lparr>publicKey = ''Alice'', secretKey = [1, 2, 3]\<rparr>) [] (\<lambda>n t. None))
       = DryRunListed (toProcess False (map (buildAccount exampleMetadata) exampleLedger))
   \<and> cleanDust ''Alice'' ((exampleOptions (Some ''id.json'') False)\<lparr>dryRun := False\<rparr>)
        (exampleEnv (Some \<lparr>publicKey = ''Alice'', secretKey = [1, 2, 3]\<rparr>) [] (\<lambda>n t. None))
       = Batch (batchProcess (\<lambda>n t. None) \<lparr>publicKey = ''Alice'', secretKey = [1, 2, 3]\<rparr>
           (toProcess False (map (buildAccount exampleMetadata) exampleLedger)))"
proof -
  let ?K = "\<lparr>publicKey = ''Alice'', secretKey = [1, 2, 3]\<rparr>"
  let ?E = "exampleEnv (Some ?K) [] (\<lambda>n t. None)"
  let ?O = "exampleOptions (Some ''id.json'') False"
  have h1: "tokenAccounts ?E = Some exampleLedger" by (simp add: example_env_fields)
  have h2: "toProcess (burn ?O) (map (buildAccount (metadataMap ?E)) exampleLedger) \<noteq> []"
    by (simp add: example_env_fields example_options_fields example_toProcess)
  have h4: "keypair ?O = Some ''id.json''" by (simp add: example_options_fields)
  have h5: "loadKeypair (keypairEnv ?E) ''id.json'' = Inr ?K"
    by (simp add: example_env_fields example_loadKeypair)
  note t = dry_run_selection [of ?E exampleLedger "''Alice''" ?O "''id.json''" ?K]
  have d: "cleanDust ''Alice'' (?O\<lparr>dryRun := True\<rparr>) ?E
      = DryRunListed (toProcess False (map (buildAccount exampleMetadata) exampleLedger))"
    using t [THEN conjunct1] h1 h2 by (simp add: example_env_fields example_options_fields)
  have l: "cleanDust ''Alice'' (?O\<lparr>dryRun := False\<rparr>) ?E
      = Batch (batchProcess (\<lambda>n t. None) ?K
           (toProcess False (map (buildAccount exampleMetadata) exampleLedger)))"
    using t [THEN conjunct2, THEN conjunct2] h1 h2 h4 h5
    by (simp add: example_env_fields example_options_fields)
  show ?thesis using h1 h5 d l by (intro conjI)
qed

section \<open>Properties: batch processing\<close>

lemma batchLoop_foldl:
  "batchLoop conn kp accounts i st
     = foldl (\<lambda>s batch. sendBatch conn kp batch s) st (batchesFrom accounts i)"
proof (induction conn kp accounts i st rule: batchLoop.induct)
  case (1 conn kp accounts i st)
  show ?case
  proof (cases "i < length accounts")
    case True
    with 1 show ?thesis
      by (subst batchLoop.simps, subst batchesFrom.simps) simp
  next
    case False
    then show ?thesis
      by (subst batchLoop.simps, subst batchesFrom.simps) simp
  qed
qed

lemma sendBatch_submitted:
  "submitted (sendBatch conn kp batch st) = submitted st @ [batchTransaction kp batch]"
  by (simp add: sendBatch_def Let_def split: option.splits)

lemma sendBatch_outcomes:
  "outcomes (sendBatch conn kp batch st)
     = outcomes st @ [conn (length (submitted st)) (batchTransaction kp batch)]"
  by (simp add: sendBatch_def Let_def split: option.splits)

lemma sendBatch_totalClosed:
  "totalClosed (sendBatch conn kp batch st)
     = totalClosed st
       + (if conn (length (submitted st)) (batchTransaction kp batch) = None then 0 else length batch)"
  by (simp add: sendBatch_def Let_def split: option.splits)

lemma sendBatch_totalRecovered:
  "totalRecovered (sendBatch conn kp batch st)
     = (if conn (length (submitted st)) (batchTransaction kp batch) = None then totalRecovered st
        else fadd (totalRecovered st) (batchRecovered batch))"
  by (simp add: sendBatch_def Let_def split: option.splits)

lemma foldl_sendBatch_submitted:
  "submitted (foldl (\<lambda>s batch. sendBatch conn kp batch s) st cs)
     = submitted st @ map (batchTransaction kp) cs"
  by (induction cs arbitrary: st) (simp_all add: sendBatch_submitted)

lemma foldl_sendBatch_outcomes:
  "outcomes (foldl (\<lambda>s batch. sendBatch conn kp batch s) st cs)
     = outcomes st
       @ map (\<lambda>(k, batch). conn k (batchTransaction kp batch))
           (zip [length (submitted st) ..< length (submitted st) + length cs] cs)"
proof (induction cs arbitrary: st)
  case Nil
  then show ?case by simp
next
  case (Cons c cs)
  have "[length (submitted st) ..< length (submitted st) + length (c # cs)]
      = length (submitted st) # [Suc (length (submitted st)) ..< Suc (length (submitted st)) + length cs]"
    by (simp add: upt_rec)
  then show ?case
    by (simp add: Cons.IH sendBatch_submitted sendBatch_outcomes)
qed

lemma foldl_sendBatch_totalClosed:
  "totalClosed (foldl (\<lambda>s batch. sendBatch conn kp batch s) st cs)
     = totalClosed st + sum_list (map length (confirmedFrom conn kp (length (submitted st)) cs))"
  by (induction cs arbitrary: st)
     (simp_all add: sendBatch_submitted sendBatch_totalClosed)

lemma foldl_sendBatch_totalRecovered:
  "totalRecovered (foldl (\<lambda>s batch. sendBatch conn kp batch s) st cs)
     = foldl fadd (totalRecovered st)
         (map batchRecovered (confirmedFrom conn kp (length (submitted st)) cs))"
  by (induction cs arbitrary: st)
     (simp_all add: sendBatch_submitted sendBatch_totalRecovered)

lemma initialProcState_fields:
  "totalClosed initialProcState = 0" "totalRecovered initialProcState = Finite 0"
  "submitted initialProcState = []" "outcomes initialProcState = []"
  by (simp_all add: initialProcState_def)

lemma batchRecovered_rounded:
  assumes "length batch \<le> 5"
  shows "fdiv (fmul (Number (int (length batch))) (Finite 2039280)) (Finite 1000000000)
     = round_double (of_nat (length batch) * 2039280 / 1000000000)"
proof (cases "length batch = 0")
  case True
  then show ?thesis by (simp add: Number_def round_double_zero)
next
  case False
  then have k: "0 < int (length batch)" "int (length batch) < 2 ^ 53"
    using assms by simp_all
  have n: "Number (int (length batch)) = Finite (of_nat (length batch))"
    using round_double_of_int [OF k] by (simp add: Number_def)
  have k2: "0 < int (length batch) * 2039280" "int (length batch) * 2039280 < 2 ^ 53"
    using k(1) assms by simp_all
  have "round_double (of_int (int (length batch) * 2039280))
      = Finite (of_int (int (length batch) * 2039280))"
    using k2 by (rule round_double_of_int)
  then have m: "round_double (of_nat (length batch) * 2039280) = Finite (of_nat (length batch) * 2039280)"
    by simp
  show ?thesis by (simp add: n m)
qed

lemma rd_five_batches:
  "round_double (of_nat 5 * 2039280 / 1000000000)
     = Finite (5877824414786627 / 576460752303423488)"
proof -
  have r: "round_half_even (of_nat 5 * 2039280 / 1000000000 / pow2 (- 7 - 52)) = 5877824414786627"
    by (rule round_half_even_near) (simp add: pow2_def)
  have "round_double (of_nat 5 * 2039280 / 1000000000)
      = Finite (of_int 5877824414786627 * pow2 (- 7 - 52))"
    by (rule round_double_pos [OF _ _ _ _ r]) (simp_all add: pow2_def)
  then show ?thesis by (simp add: pow2_def)
qed

lemma rd_three_batches:
  "round_double (of_nat 3 * 2039280 / 1000000000)
     = Finite (7053389297743953 / 1152921504606846976)"
proof -
  have r: "round_half_even (of_nat 3 * 2039280 / 1000000000 / pow2 (- 8 - 52)) = 7053389297743953"
    by (rule round_half_even_near) (simp add: pow2_def)
  have "round_double (of_nat 3 * 2039280 / 1000000000)
      = Finite (of_int 7053389297743953 * pow2 (- 8 - 52))"
    by (rule round_double_pos [OF _ _ _ _ r]) (simp_all add: pow2_def)
  then show ?thesis by (simp add: pow2_def)
qed

lemma rd_first_total:
  "round_double (5877824414786627 / 576460752303423488)
     = Finite (5877824414786627 / 576460752303423488)"
proof -
  have r: "round_half_even (5877824414786627 / 576460752303423488 / pow2 (- 7 - 52))
      = 5877824414786627"
    by (rule round_half_even_near) (simp add: pow2_def)
  have "round_double (5877824414786627 / 576460752303423488)
      = Finite (of_int 5877824414786627 * pow2 (- 7 - 52))"
    by (rule round_double_pos [OF _ _ _ _ r]) (simp_all add: pow2_def)
  then show ?thesis by (simp add: pow2_def)
qed

lemma rd_second_total:
  "round_double (18809038127317207 / 1152921504606846976)
     = Finite (2351129765914651 / 144115188075855872)"
proof -
  have r: "round_half_even (18809038127317207 / 1152921504606846976 / pow2 (- 6 - 52))
      = 4702259531829302"
    by (rule round_half_even_near) (simp add: pow2_def)
  have "round_double (18809038127317207 / 1152921504606846976)
      = Finite (of_int 4702259531829302 * pow2 (- 6 - 52))"
    by (rule round_double_pos [OF _ _ _ _ r]) (simp_all add: pow2_def)
  then show ?thesis by (simp add: pow2_def)
qed

lemma example_total_recovered:
  "fadd (fadd (Finite 0) (round_double (of_nat 5 * 2039280 / 1000000000)))
        (round_double (of_nat 3 * 2039280 / 1000000000))
     = Finite (2351129765914651 / 144115188075855872)"
proof -
  have a: "fadd (Finite 0) (Finite (5877824414786627 / 576460752303423488))
      = Finite (5877824414786627 / 576460752303423488)"
    by (simp add: rd_first_total)
  have s: "(5877824414786627 / 576460752303423488 :: rat) + 7053389297743953 / 1152921504606846976
      = 18809038127317207 / 1152921504606846976"
    by simp
  have b: "fadd (Finite (5877824414786627 / 576460752303423488))
        (Finite (7053389297743953 / 1152921504606846976))
      = Finite (2351129765914651 / 144115188075855872)"
    unfolding fadd.simps s by (rule rd_second_total)
  show ?thesis
    unfolding rd_five_batches rd_three_batches a b by (rule refl)
qed

lemma map_batchRecovered:
  "map batchRecovered cs
     = map (\<lambda>batch. fdiv (fmul (Number (int (length batch))) (Finite 2039280)) (Finite 1000000000)) cs"
  by (simp add: batchRecovered_def RENT_EXEMPT_LAMPORTS_def)

lemma confirmedFrom_subset: "set (confirmedFrom conn kp k cs) \<subseteq> set cs"
  by (induction cs arbitrary: k) auto

lemma confirmed_recovered_rounded:
  "map (\<lambda>batch. fdiv (fmul (Number (int (length batch))) (Finite 2039280)) (Finite 1000000000))
       (confirmedFrom conn kp k (batchesFrom accounts 0))
     = map (\<lambda>batch. round_double (of_nat (length batch) * 2039280 / 1000000000))
       (confirmedFrom conn kp k (batchesFrom accounts 0))"
proof (rule map_cong [OF refl])
  fix batch
  assume "batch \<in> set (confirmedFrom conn kp k (batchesFrom accounts 0))"
  then have "batch \<in> set (batchesFrom accounts 0)"
    using confirmedFrom_subset by blast
  then have "length batch \<le> 5" using nonempty_batchesFrom by blast
  then show "fdiv (fmul (Number (int (length batch))) (Finite 2039280)) (Finite 1000000000)
      = round_double (of_nat (length batch) * 2039280 / 1000000000)"
    by (rule batchRecovered_rounded)
qed

text \<open>
  Claim C5. \<open>batchProcess\<close> submits one transaction for every batch, in order, whether
  or not earlier ones failed, and records what came back for each. \<open>totalClosed\<close> is the
  sum of the sizes of the batches that confirmed. \<open>totalRecovered\<close> is the sum, added up
  in double precision in the order of the batches, of \<open>(size * 2039280) / 10^9\<close> over the
  same batches; the product is exact, so each term is the double nearest to
  \<open>size * 2039280 / 10^9\<close>. When the second of three batches fails, the third is still
  submitted and the totals are those of the first and the third.
\<close>

theorem batch_failure_isolation:
  "submitted (batchProcess conn kp accounts) = map (batchTransaction kp) (batchesFrom accounts 0)
   \<and> outcomes (batchProcess conn kp accounts)
       = map (\<lambda>(k, batch). conn k (batchTransaction kp batch))
           (zip [0 ..< length (batchesFrom accounts 0)] (batchesFrom accounts 0))
   \<and> totalClosed (batchProcess conn kp accounts)
       = sum_list (map length (confirmedFrom conn kp 0 (batchesFrom accounts 0)))
   \<and> totalRecovered (batchProcess conn kp accounts)
       = foldl fadd (Finite 0)
           (map (\<lambda>batch. fdiv (fmul (Number (int (length batch))) (Finite 2039280))
                           (Finite 1000000000))
              (confirmedFrom conn kp 0 (batchesFrom accounts 0)))
   \<and> totalRecovered (batchProcess conn kp accounts)
       = foldl fadd (Finite 0)
           (map (\<lambda>batch. round_double (of_nat (length batch) * 2039280 / 1000000000))
              (confirmedFrom conn kp 0 (batchesFrom accounts 0)))
   \<and> (batchesFrom accounts 0 = [c1, c2, c3]
        \<and> conn 0 (batchTransaction kp c1) \<noteq> None
        \<and> conn 1 (batchTransaction kp c2) = None
        \<and> conn 2 (batchTransaction kp c3) \<noteq> None
      \<longrightarrow> totalClosed (batchProcess conn kp accounts) = length c1 + length c3
          \<and> submitted (batchProcess conn kp accounts)
              = [batchTransaction kp c1, batchTransaction kp c2, batchTransaction kp c3]
          \<and> outcomes (batchProcess conn kp accounts) ! 1 = None
          \<and> totalRecovered (batchProcess conn kp accounts)
              = fadd (fadd (Finite 0)
                        (round_double (of_nat (length c1) * 2039280 / 1000000000)))
                     (round_double (of_nat (length c3) * 2039280 / 1000000000)))"
proof -
  have s: "submitted (batchProcess conn kp accounts) = map (batchTransaction kp) (batchesFrom accounts 0)"
    by (simp add: batchProcess_def batchLoop_foldl foldl_sendBatch_submitted initialProcState_fields)
  have ou: "outcomes (batchProcess conn kp accounts)
       = map (\<lambda>(k, batch). conn k (batchTransaction kp batch))
           (zip [0 ..< length (batchesFrom accounts 0)] (batchesFrom accounts 0))"
    by (simp add: batchProcess_def batchLoop_foldl foldl_sendBatch_outcomes initialProcState_fields)
  have c: "totalClosed (batchProcess conn kp accounts)
       = sum_list (map length (confirmedFrom conn kp 0 (batchesFrom accounts 0)))"
    by (simp add: batchProcess_def batchLoop_foldl foldl_sendBatch_totalClosed initialProcState_fields)
  have "totalRecovered (batchProcess conn kp accounts)
       = foldl fadd (Finite 0) (map batchRecovered (confirmedFrom conn kp 0 (batchesFrom accounts 0)))"
    by (simp add: batchProcess_def batchLoop_foldl foldl_sendBatch_totalRecovered initialProcState_fields)
  then have r: "totalRecovered (batchProcess conn kp accounts)
       = foldl fadd (Finite 0)
           (map (\<lambda>batch. fdiv (fmul (Number (int (length batch))) (Finite 2039280))
                           (Finite 1000000000))
              (confirmedFrom conn kp 0 (batchesFrom accounts 0)))"
    by (simp only: map_batchRecovered)
  have r2: "totalRecovered (batchProcess conn kp accounts)
       = foldl fadd (Finite 0)
           (map (\<lambda>batch. round_double (of_nat (length batch) * 2039280 / 1000000000))
              (confirmedFrom conn kp 0 (batchesFrom accounts 0)))"
    unfolding r by (simp only: confirmed_recovered_rounded)
  have e: "totalClosed (batchProcess conn kp accounts) = length c1 + length c3
          \<and> submitted (batchProcess conn kp accounts)
              = [batchTransaction kp c1, batchTransaction kp c2, batchTransaction kp c3]
          \<and> outcomes (batchProcess conn kp accounts) ! 1 = None
          \<and> totalRecovered (batchProcess conn kp accounts)
              = fadd (fadd (Finite 0)
                        (round_double (of_nat (length c1) * 2039280 / 1000000000)))
                     (round_double (of_nat (length c3) * 2039280 / 1000000000))"
    if "batchesFrom accounts 0 = [c1, c2, c3]"
      and "conn 0 (batchTransaction kp c1) \<noteq> None"
      and "conn 1 (batchTransaction kp c2) = None"
      and "conn 2 (batchTransaction kp c3) \<noteq> None"
  proof -
    have u: "[0..<3] = [0, 1, 2::nat]" by (simp add: upt_rec)
    have two: "Suc (Suc 0) = 2" by simp
    show ?thesis
      unfolding s ou c r2 that(1)
      using that(2-4) by (simp add: u two del: not_None_eq)
  qed
  show ?thesis using s ou c r r2 e by blast
qed

lemma example_thirteen_batches:
  "batchesFrom exampleThirteen 0
     = [map (\<lambda>label. exampleAccount label LOW) [''h1'', ''h2'', ''h3'', ''h4'', ''h5''],
        map (\<lambda>label. exampleAccount label LOW) [''h6'', ''h7'', ''h8'', ''h9'', ''h10''],
        map (\<lambda>label. exampleAccount label LOW) [''h11'', ''h12'', ''h13'']]"
  by (simp add: batchesFrom.simps [of _ 0] batchesFrom.simps [of _ 5]
      batchesFrom.simps [of _ 10] batchesFrom.simps [of _ 15] batchSize_def slice_def
      exampleThirteen_def)

lemma example_batch_transactions:
  "batchTransaction exampleKeypair (map (\<lambda>label. exampleAccount label LOW) [''h11'', ''h12'', ''h13''])
     = [CloseAccountInstruction ''h11'' ''W'' ''W'', CloseAccountInstruction ''h12'' ''W'' ''W'',
        CloseAccountInstruction ''h13'' ''W'' ''W'']"
  by (simp add: batchTransaction_def addAccountInstructions_def exampleAccount_def
      exampleKeypair_def Let_def)

theorem batch_failure_isolation_witness:
  "length (batchesFrom exampleThirteen 0) = 3
   \<and> secondFails 0 (batchTransaction exampleKeypair (batchesFrom exampleThirteen 0 ! 0)) \<noteq> None
   \<and> secondFails 1 (batchTransaction exampleKeypair (batchesFrom exampleThirteen 0 ! 1)) = None
   \<and> secondFails 2 (batchTransaction exampleKeypair (batchesFrom exampleThirteen 0 ! 2)) \<noteq> None
   \<and> totalClosed (batchProcess secondFails exampleKeypair exampleThirteen) = 8
   \<and> length (submitted (batchProcess secondFails exampleKeypair exampleThirteen)) = 3
   \<and> submitted (batchProcess secondFails exampleKeypair exampleThirteen) ! 2
       = [CloseAccountInstruction ''h11'' ''W'' ''W'', CloseAccountInstruction ''h12'' ''W'' ''W'',
          CloseAccountInstruction ''h13'' ''W'' ''W'']
   \<and> outcomes (batchProcess secondFails exampleKeypair exampleThirteen) ! 1 = None
   \<and> totalRecovered (batchProcess secondFails exampleKeypair exampleThirteen)
       = Finite (2351129765914651 / 144115188075855872)"
proof -
  let ?c1 = "map (\<lambda>label. exampleAccount label LOW) [''h1'', ''h2'', ''h3'', ''h4'', ''h5'']"
  let ?c2 = "map (\<lambda>label. exampleAccount label LOW) [''h6'', ''h7'', ''h8'', ''h9'', ''h10'']"
  let ?c3 = "map (\<lambda>label. exampleAccount label LOW) [''h11'', ''h12'', ''h13'']"
  have f: "secondFails 0 (batchTransaction exampleKeypair ?c1) \<noteq> None"
    "secondFails 1 (batchTransaction exampleKeypair ?c2) = None"
    "secondFails 2 (batchTransaction exampleKeypair ?c3) \<noteq> None"
    by (simp_all add: secondFails_def)
  have l: "length ?c1 = 5" "length ?c3 = 3" by simp_all
  have t: "totalClosed (batchProcess secondFails exampleKeypair exampleThirteen) = length ?c1 + length ?c3
      \<and> submitted (batchProcess secondFails exampleKeypair exampleThirteen)
          = [batchTransaction exampleKeypair ?c1, batchTransaction exampleKeypair ?c2,
             batchTransaction exampleKeypair ?c3]
      \<and> outcomes (batchProcess secondFails exampleKeypair exampleThirteen) ! 1 = None
      \<and> totalRecovered (batchProcess secondFails exampleKeypair exampleThirteen)
          = fadd (fadd (Finite 0)
                    (round_double (of_nat (length ?c1) * 2039280 / 1000000000)))
                 (round_double (of_nat (length ?c3) * 2039280 / 1000000000))"
    using batch_failure_isolation [of secondFails exampleKeypair exampleThirteen ?c1 ?c2 ?c3,
        THEN conjunct2, THEN conjunct2, THEN conjunct2, THEN conjunct2, THEN conjunct2]
      example_thirteen_batches f
    by blast
  from t have r: "totalClosed (batchProcess secondFails exampleKeypair exampleThirteen) = 8"
    "length (submitted (batchProcess secondFails exampleKeypair exampleThirteen)) = 3"
    "outcomes (batchProcess secondFails exampleKeypair exampleThirteen) ! 1 = None"
    by simp_all
  from t have "submitted (batchProcess secondFails exampleKeypair exampleThirteen) ! 2
      = batchTransaction exampleKeypair ?c3"
    by simp
  then have s3: "submitted (batchProcess secondFails exampleKeypair exampleThirteen) ! 2
       = [CloseAccountInstruction ''h11'' ''W'' ''W'', CloseAccountInstruction ''h12'' ''W'' ''W'',
          CloseAccountInstruction ''h13'' ''W'' ''W'']"
    by (simp only: example_batch_transactions)
  from t have "totalRecovered (batchProcess secondFails exampleKeypair exampleThirteen)
          = fadd (fadd (Finite 0)
                    (round_double (of_nat (length ?c1) * 2039280 / 1000000000)))
                 (round_double (of_nat (length ?c3) * 2039280 / 1000000000))"
    by blast
  then have tr: "totalRecovered (batchProcess secondFails exampleKeypair exampleThirteen)
       = Finite (2351129765914651 / 144115188075855872)"
    by (simp only: l example_total_recovered)
  have h: "length (batchesFrom exampleThirteen 0) = 3"
    "secondFails 0 (batchTransaction exampleKeypair (batchesFrom exampleThirteen 0 ! 0)) \<noteq> None"
    "secondFails 1 (batchTransaction exampleKeypair (batchesFrom exampleThirteen 0 ! 1)) = None"
    "secondFails 2 (batchTransaction exampleKeypair (batchesFrom exampleThirteen 0 ! 2)) \<noteq> None"
    unfolding example_thirteen_batches using f by simp_all
  show ?thesis using h r s3 tr by (intro conjI)
qed

section \<open>Properties: interactive processing\<close>

lemma modeOf_cases:
  "modeOf st = AUTO_ALL \<longleftrightarrow> processAll st"
  "modeOf st = SKIP_ALL \<longleftrightarrow> \<not> processAll st \<and> skipRemaining st"
  "modeOf st = ASK \<longleftrightarrow> \<not> processAll st \<and> \<not> skipRemaining st"
  by (simp_all add: modeOf_def)

lemma decide_ask:
  assumes "\<not> processAll st" "\<not> skipRemaining st" "answers st = answer # others"
  shows "decide st =
     Some (case parseAnswer answer of
             CmdYes \<Rightarrow> (True, st\<lparr>answers := others\<rparr>)
           | CmdAll \<Rightarrow> (True, st\<lparr>answers := others, processAll := True\<rparr>)
           | CmdQuit \<Rightarrow> (False, st\<lparr>answers := others, skipRemaining := True\<rparr>)
           | CmdOther \<Rightarrow> (False, st\<lparr>answers := others\<rparr>))"
  using assms by (simp add: decide_def parseAnswer_def Let_def)

lemma decide_ask_empty:
  assumes "\<not> processAll st" "\<not> skipRemaining st" "answers st = []"
  shows "decide st = None"
  using assms by (simp add: decide_def)

lemma decide_auto: "processAll st \<Longrightarrow> decide st = Some (True, st)"
  by (simp add: decide_def)

lemma decide_skip: "\<not> processAll st \<Longrightarrow> skipRemaining st \<Longrightarrow> decide st = Some (False, st)"
  by (simp add: decide_def)

lemma sendAccount_fields:
  "processAll (sendAccount conn kp a i st) = processAll st"
  "skipRemaining (sendAccount conn kp a i st) = skipRemaining st"
  "answers (sendAccount conn kp a i st) = answers st"
  "processed (sendAccount conn kp a i st) = processed st @ [i + 1]"
  "skipped (sendAccount conn kp a i st) = skipped st"
  by (simp_all add: sendAccount_def Let_def split: option.splits)

lemma modeOf_sendAccount: "modeOf (sendAccount conn kp a i st) = modeOf st"
  by (simp add: modeOf_def sendAccount_fields)

lemma interactiveLoop_machine:
  "map_run (\<lambda>s. (processed s, skipped s)) (interactiveLoop conn kp accounts i st)
     = machine (modeOf st) i (length accounts) (answers st) (processed st, skipped st)"
proof (induction accounts arbitrary: i st)
  case Nil
  then show ?case by simp
next
  case (Cons account rest)
  show ?case
  proof (cases "processAll st")
    case True
    then show ?thesis
      by (simp add: decide_auto Cons.IH modeOf_sendAccount sendAccount_fields modeOf_def)
  next
    case pa: False
    show ?thesis
    proof (cases "skipRemaining st")
      case True
      then show ?thesis
        using pa by (simp add: decide_skip Cons.IH modeOf_def)
    next
      case sr: False
      show ?thesis
      proof (cases "answers st")
        case Nil
        then show ?thesis
          using pa sr by (simp add: decide_ask_empty modeOf_def)
      next
        case (Cons answer others)
        then show ?thesis
          using pa sr
          by (cases "parseAnswer answer")
             (simp_all add: decide_ask Cons.IH modeOf_sendAccount sendAccount_fields modeOf_def)
      qed
    qed
  qed
qed

lemma interactiveClean_machine:
  "map_run (\<lambda>s. (processed s, skipped s)) (interactiveClean conn kp accounts input)
     = machine ASK 0 (length accounts) input ([], [])"
  unfolding interactiveClean_def interactiveLoop_machine
  by (simp add: initialInteractiveState_def modeOf_def)

lemma machine_finished:
  "n \<le> length input \<Longrightarrow> finished (machine m i n input acc)"
proof (induction n arbitrary: m i input acc)
  case 0
  then show ?case by simp
next
  case (Suc n)
  show ?case
  proof (cases m)
    case ASK
    from Suc.prems obtain answer others where inp: "input = answer # others"
      by (cases input) auto
    with Suc.prems have "n \<le> length others" by simp
    then show ?thesis
      using Suc.IH by (simp add: ASK inp split: prod.splits)
  next
    case AUTO_ALL
    from Suc.prems have "n \<le> length input" by simp
    then show ?thesis using Suc.IH by (simp add: AUTO_ALL)
  next
    case SKIP_ALL
    from Suc.prems have "n \<le> length input" by simp
    then show ?thesis using Suc.IH by (simp add: SKIP_ALL)
  qed
qed

lemma finished_map_run: "finished (map_run f r) = finished r"
  by (cases r) simp_all

lemma map_run_Finished:
  assumes "map_run (\<lambda>s. (processed s, skipped s)) r = Finished (ps, ss)"
  shows "finished r \<and> processed (run_state r) = ps \<and> skipped (run_state r) = ss"
  using assms by (cases r) simp_all

lemma machine_example_nya:
  "machine ASK 0 4 [''n'', ''y'', ''a''] ([], []) = Finished ([2, 3, 4], [1])"
  by code_simp

lemma machine_example_yq:
  "machine ASK 0 4 [''y'', ''q''] ([], []) = Finished ([1], [2, 3, 4])"
  by code_simp

lemma parseAnswer_examples:
  "parseAnswer ''yes'' = CmdYes" "parseAnswer ''y'' = CmdYes"
  "parseAnswer ''all'' = CmdAll" "parseAnswer ''a'' = CmdAll"
  "parseAnswer ''quit'' = CmdQuit" "parseAnswer ''q'' = CmdQuit"
  "parseAnswer ''n'' = CmdOther"
  by code_simp+

lemma decide_preserves:
  assumes "decide st = Some (b, st1)"
  shows "submitted st1 = submitted st \<and> processed st1 = processed st
     \<and> outcomes st1 = outcomes st \<and> totalClosed st1 = totalClosed st
     \<and> totalRecovered st1 = totalRecovered st"
  using assms by (auto simp: decide_def Let_def split: if_splits list.splits)

lemma linked_decide: "decide st = Some (b, st1) \<Longrightarrow> linked conn kp full st \<Longrightarrow> linked conn kp full st1"
  using decide_preserves [of st b st1] unfolding linked_def by simp

lemma linked_skip: "linked conn kp full st \<Longrightarrow> linked conn kp full (st\<lparr>skipped := ss\<rparr>)"
  by (simp add: linked_def)

lemma sendAccount_effect:
  "submitted (sendAccount conn kp a i st) = submitted st @ [addAccountInstructions kp [] a]"
  "outcomes (sendAccount conn kp a i st)
     = outcomes st @ [conn (length (submitted st)) (addAccountInstructions kp [] a)]"
  "totalClosed (sendAccount conn kp a i st)
     = totalClosed st
       + (if conn (length (submitted st)) (addAccountInstructions kp [] a) = None then 0 else 1)"
  "totalRecovered (sendAccount conn kp a i st)
     = (if conn (length (submitted st)) (addAccountInstructions kp [] a) = None
        then totalRecovered st
        else fadd (totalRecovered st) (fdiv (Finite 2039280) (Finite 1000000000)))"
  by (simp_all add: sendAccount_def Let_def RENT_EXEMPT_LAMPORTS_def split: option.splits)

lemma outcomes_snoc:
  "map (\<lambda>(j, t). conn j t) (zip [0 ..< length (xs @ [x])] (xs @ [x]))
     = map (\<lambda>(j, t). conn j t) (zip [0 ..< length xs] xs) @ [conn (length xs) x]"
  by simp

lemma linked_sendAccount:
  assumes "linked conn kp full st" "full ! i = a"
  shows "linked conn kp full (sendAccount conn kp a i st)"
proof -
  let ?t = "addAccountInstructions kp [] a"
  let ?st = "sendAccount conn kp a i st"
  have s: "submitted st = map (\<lambda>k. addAccountInstructions kp [] (full ! (k - 1))) (processed st)"
    and ou: "outcomes st = map (\<lambda>(j, t). conn j t) (zip [0 ..< length (submitted st)] (submitted st))"
    and c: "totalClosed st = length (filter (\<lambda>r. r \<noteq> None) (outcomes st))"
    and r: "totalRecovered st
         = foldl fadd (Finite 0)
             (map (\<lambda>r. fdiv (Finite 2039280) (Finite 1000000000))
                (filter (\<lambda>r. r \<noteq> None) (outcomes st)))"
    using assms(1) unfolding linked_def by blast+
  have s': "submitted ?st
      = map (\<lambda>k. addAccountInstructions kp [] (full ! (k - 1))) (processed ?st)"
    using assms(2) by (simp add: sendAccount_effect(1) sendAccount_fields(4) s)
  have ou': "outcomes ?st
      = map (\<lambda>(j, t). conn j t) (zip [0 ..< length (submitted ?st)] (submitted ?st))"
    by (simp only: sendAccount_effect(1,2) outcomes_snoc ou [symmetric])
  have c': "totalClosed ?st = length (filter (\<lambda>r. r \<noteq> None) (outcomes ?st))"
    by (simp add: sendAccount_effect(2,3) c del: not_None_eq)
  have r': "totalRecovered ?st
         = foldl fadd (Finite 0)
             (map (\<lambda>r. fdiv (Finite 2039280) (Finite 1000000000))
                (filter (\<lambda>r. r \<noteq> None) (outcomes ?st)))"
    unfolding sendAccount_effect(2,4) r by (simp del: not_None_eq fdiv.simps)
  show ?thesis
    unfolding linked_def using s' ou' c' r' by (intro conjI)
qed

lemma linked_interactiveLoop:
  assumes "linked conn kp full st" "drop i full = rest"
  shows "linked conn kp full (run_state (interactiveLoop conn kp rest i st))"
  using assms
proof (induction rest arbitrary: i st)
  case Nil
  then show ?case by simp
next
  case (Cons account rest)
  have a: "full ! i = account" using Cons.prems(2) by (simp add: nth_via_drop)
  have d: "drop (i + 1) full = rest"
    using Cons.prems(2) by (metis Suc_eq_plus1 drop_Suc list.sel(3) tl_drop)
  show ?case
  proof (cases "decide st")
    case None
    then show ?thesis using Cons.prems(1) by simp
  next
    case (Some r)
    obtain b st1 where r: "r = (b, st1)" by (cases r)
    have l1: "linked conn kp full st1"
      using Some Cons.prems(1) unfolding r by (rule linked_decide)
    have "linked conn kp full
        (if b then sendAccount conn kp account i st1 else st1\<lparr>skipped := skipped st1 @ [i + 1]\<rparr>)"
      using l1 a by (simp add: linked_sendAccount linked_skip)
    then show ?thesis
      using Cons.IH [OF _ d] by (simp add: Some r)
  qed
qed

lemma linked_interactiveClean:
  "linked conn kp accounts (run_state (interactiveClean conn kp accounts input))"
  unfolding interactiveClean_def
  by (rule linked_interactiveLoop) (simp_all add: linked_def initialInteractiveState_def)

lemma rd_one_account:
  "round_double (2039280 / 1000000000) = Finite (2351129765914651 / 1152921504606846976)"
proof -
  have r: "round_half_even (2039280 / 1000000000 / pow2 (- 9 - 52)) = 4702259531829302"
    by (rule round_half_even_near) (simp add: pow2_def)
  have "round_double (2039280 / 1000000000)
      = Finite (of_int 4702259531829302 * pow2 (- 9 - 52))"
    by (rule round_double_pos [OF _ _ _ _ r]) (simp_all add: pow2_def)
  then show ?thesis by (simp add: pow2_def)
qed

lemma rd_one_account_again:
  "round_double (2351129765914651 / 1152921504606846976)
     = Finite (2351129765914651 / 1152921504606846976)"
proof -
  have r: "round_half_even (2351129765914651 / 1152921504606846976 / pow2 (- 9 - 52))
      = 4702259531829302"
    by (rule round_half_even_near) (simp add: pow2_def)
  have "round_double (2351129765914651 / 1152921504606846976)
      = Finite (of_int 4702259531829302 * pow2 (- 9 - 52))"
    by (rule round_double_pos [OF _ _ _ _ r]) (simp_all add: pow2_def)
  then show ?thesis by (simp add: pow2_def)
qed

lemma rd_two_accounts:
  "round_double (2351129765914651 / 576460752303423488)
     = Finite (2351129765914651 / 576460752303423488)"
proof -
  have r: "round_half_even (2351129765914651 / 576460752303423488 / pow2 (- 8 - 52))
      = 4702259531829302"
    by (rule round_half_even_near) (simp add: pow2_def)
  have "round_double (2351129765914651 / 576460752303423488)
      = Finite (of_int 4702259531829302 * pow2 (- 8 - 52))"
    by (rule round_double_pos [OF _ _ _ _ r]) (simp_all add: pow2_def)
  then show ?thesis by (simp add: pow2_def)
qed

lemma one_account_recovered:
  "fdiv (Finite 2039280) (Finite 1000000000) = Finite (2351129765914651 / 1152921504606846976)"
proof -
  have n: "(1000000000 :: rat) \<noteq> 0" by simp
  show ?thesis by (simp only: fdiv.simps n if_False rd_one_account)
qed

lemma two_accounts_recovered:
  "fadd (fadd (Finite 0) (fdiv (Finite 2039280) (Finite 1000000000)))
        (fdiv (Finite 2039280) (Finite 1000000000))
     = Finite (2351129765914651 / 576460752303423488)"
proof -
  have a: "fadd (Finite 0) (Finite (2351129765914651 / 1152921504606846976))
      = Finite (2351129765914651 / 1152921504606846976)"
    by (simp add: rd_one_account_again)
  have s: "(2351129765914651 / 1152921504606846976 :: rat) + 2351129765914651 / 1152921504606846976
      = 2351129765914651 / 576460752303423488"
    by simp
  have b: "fadd (Finite (2351129765914651 / 1152921504606846976))
        (Finite (2351129765914651 / 1152921504606846976))
      = Finite (2351129765914651 / 576460752303423488)"
    unfolding fadd.simps s by (rule rd_two_accounts)
  show ?thesis unfolding one_account_recovered a b by (rule refl)
qed

text \<open>
  Claim C6. On any list of holdings and any finite sequence of answers, the processed and
  the skipped holdings of \<open>interactiveClean\<close> are those of the three-mode machine started
  in \<open>ASK\<close>. Processing a holding is submitting a transaction of its own, holding its
  instructions alone: the transactions sent are exactly those of the processed holdings, in
  order, and nothing is sent for a skipped one; the outcomes are the network's answers to
  them, \<open>totalClosed\<close> counts the confirmed ones and \<open>totalRecovered\<close> adds
  \<open>2039280 / 10^9\<close> for each. The run ends when there are at least as many answers as
  holdings. In the program's terms, with neither flag set: yes processes the holding and
  leaves the flags, all processes it and sets \<open>processAll\<close>, quit skips it and sets
  \<open>skipRemaining\<close>, any other answer skips it and leaves the flags; with \<open>processAll\<close>
  set every holding is processed, with \<open>skipRemaining\<close> set every holding is skipped,
  neither reading an answer. Four holdings with the answers n, y, a end with 2, 3, 4
  processed and 1 skipped; with the answers y, q they end with 1 processed and 2, 3, 4
  skipped.
\<close>

theorem interactive_state_machine:
  "map_run (\<lambda>s. (processed s, skipped s)) (interactiveClean conn kp accounts input)
     = machine ASK 0 (length accounts) input ([], [])
   \<and> submitted (run_state (interactiveClean conn kp accounts input))
       = map (\<lambda>k. addAccountInstructions kp [] (accounts ! (k - 1)))
           (processed (run_state (interactiveClean conn kp accounts input)))
   \<and> outcomes (run_state (interactiveClean conn kp accounts input))
       = map (\<lambda>(j, t). conn j t)
           (zip [0 ..< length (submitted (run_state (interactiveClean conn kp accounts input)))]
                (submitted (run_state (interactiveClean conn kp accounts input))))
   \<and> totalClosed (run_state (interactiveClean conn kp accounts input))
       = length (filter (\<lambda>r. r \<noteq> None)
           (outcomes (run_state (interactiveClean conn kp accounts input))))
   \<and> totalRecovered (run_state (interactiveClean conn kp accounts input))
       = foldl fadd (Finite 0)
           (map (\<lambda>r. fdiv (Finite 2039280) (Finite 1000000000))
              (filter (\<lambda>r. r \<noteq> None)
                 (outcomes (run_state (interactiveClean conn kp accounts input)))))
   \<and> (length accounts \<le> length input \<longrightarrow> finished (interactiveClean conn kp accounts input))
   \<and> (length accounts = 4 \<longrightarrow>
        finished (interactiveClean conn kp accounts [''n'', ''y'', ''a''])
        \<and> processed (run_state (interactiveClean conn kp accounts [''n'', ''y'', ''a''])) = [2, 3, 4]
        \<and> skipped (run_state (interactiveClean conn kp accounts [''n'', ''y'', ''a''])) = [1])
   \<and> (length accounts = 4 \<longrightarrow>
        finished (interactiveClean conn kp accounts [''y'', ''q''])
        \<and> processed (run_state (interactiveClean conn kp accounts [''y'', ''q''])) = [1]
        \<and> skipped (run_state (interactiveClean conn kp accounts [''y'', ''q''])) = [2, 3, 4])
   \<and> (\<not> processAll st \<and> \<not> skipRemaining st \<and> answers st = answer # others \<longrightarrow>
        decide st =
          Some (case parseAnswer answer of
                  CmdYes \<Rightarrow> (True, st\<lparr>answers := others\<rparr>)
                | CmdAll \<Rightarrow> (True, st\<lparr>answers := others, processAll := True\<rparr>)
                | CmdQuit \<Rightarrow> (False, st\<lparr>answers := others, skipRemaining := True\<rparr>)
                | CmdOther \<Rightarrow> (False, st\<lparr>answers := others\<rparr>)))
   \<and> (processAll st \<longrightarrow> decide st = Some (True, st))
   \<and> (\<not> processAll st \<and> skipRemaining st \<longrightarrow> decide st = Some (False, st))
   \<and> parseAnswer ''yes'' = CmdYes \<and> parseAnswer ''y'' = CmdYes
   \<and> parseAnswer ''all'' = CmdAll \<and> parseAnswer ''a'' = CmdAll
   \<and> parseAnswer ''quit'' = CmdQuit \<and> parseAnswer ''q'' = CmdQuit
   \<and> parseAnswer ''n'' = CmdOther"
proof -
  have m: "map_run (\<lambda>s. (processed s, skipped s)) (interactiveClean conn kp accounts input)
     = machine ASK 0 (length accounts) input ([], [])"
    by (rule interactiveClean_machine)
  have l: "submitted (run_state (interactiveClean conn kp accounts input))
       = map (\<lambda>k. addAccountInstructions kp [] (accounts ! (k - 1)))
           (processed (run_state (interactiveClean conn kp accounts input)))"
    "outcomes (run_state (interactiveClean conn kp accounts input))
       = map (\<lambda>(j, t). conn j t)
           (zip [0 ..< length (submitted (run_state (interactiveClean conn kp accounts input)))]
                (submitted (run_state (interactiveClean conn kp accounts input))))"
    "totalClosed (run_state (interactiveClean conn kp accounts input))
       = length (filter (\<lambda>r. r \<noteq> None)
           (outcomes (run_state (interactiveClean conn kp accounts input))))"
    "totalRecovered (run_state (interactiveClean conn kp accounts input))
       = foldl fadd (Finite 0)
           (map (\<lambda>r. fdiv (Finite 2039280) (Finite 1000000000))
              (filter (\<lambda>r. r \<noteq> None)
                 (outcomes (run_state (interactiveClean conn kp accounts input)))))"
    using linked_interactiveClean [of conn kp accounts input] unfolding linked_def by blast+
  have f: "finished (interactiveClean conn kp accounts input)" if "length accounts \<le> length input"
    using machine_finished [OF that, of ASK 0 "([], [])"]
    by (simp add: finished_map_run flip: m)
  have e1: "finished (interactiveClean conn kp accounts [''n'', ''y'', ''a''])
        \<and> processed (run_state (interactiveClean conn kp accounts [''n'', ''y'', ''a''])) = [2, 3, 4]
        \<and> skipped (run_state (interactiveClean conn kp accounts [''n'', ''y'', ''a''])) = [1]"
    if "length accounts = 4"
    by (rule map_run_Finished) (simp only: interactiveClean_machine that machine_example_nya)
  have e2: "finished (interactiveClean conn kp accounts [''y'', ''q''])
        \<and> processed (run_state (interactiveClean conn kp accounts [''y'', ''q''])) = [1]
        \<and> skipped (run_state (interactiveClean conn kp accounts [''y'', ''q''])) = [2, 3, 4]"
    if "length accounts = 4"
    by (rule map_run_Finished) (simp only: interactiveClean_machine that machine_example_yq)
  show ?thesis
    using m l f e1 e2 decide_ask [of st answer others] decide_auto [of st] decide_skip [of st]
      parseAnswer_examples
    by blast
qed

lemma exampleFour_length: "length exampleFour = 4"
  by (simp add: exampleFour_def)

theorem interactive_state_machine_witness:
  "length exampleFour = 4
   \<and> finished (interactiveClean secondFails exampleKeypair exampleFour [''n'', ''y'', ''a''])
   \<and> processed (run_state (interactiveClean secondFails exampleKeypair exampleFour [''n'', ''y'', ''a'']))
       = [2, 3, 4]
   \<and> skipped (run_state (interactiveClean secondFails exampleKeypair exampleFour [''n'', ''y'', ''a'']))
       = [1]
   \<and> submitted (run_state (interactiveClean secondFails exampleKeypair exampleFour [''n'', ''y'', ''a'']))
       = [[CloseAccountInstruction ''h2'' ''W'' ''W''], [CloseAccountInstruction ''h3'' ''W'' ''W''],
          [CloseAccountInstruction ''h4'' ''W'' ''W'']]
   \<and> outcomes (run_state (interactiveClean secondFails exampleKeypair exampleFour [''n'', ''y'', ''a'']))
       = [Some ''signature'', None, Some ''signature'']
   \<and> totalClosed (run_state (interactiveClean secondFails exampleKeypair exampleFour [''n'', ''y'', ''a'']))
       = 2
   \<and> totalRecovered (run_state (interactiveClean secondFails exampleKeypair exampleFour [''n'', ''y'', ''a'']))
       = Finite (2351129765914651 / 576460752303423488)
   \<and> finished (interactiveClean secondFails exampleKeypair exampleFour [''y'', ''q''])
   \<and> processed (run_state (interactiveClean secondFails exampleKeypair exampleFour [''y'', ''q''])) = [1]
   \<and> skipped (run_state (interactiveClean secondFails exampleKeypair exampleFour [''y'', ''q'']))
       = [2, 3, 4]
   \<and> submitted (run_state (interactiveClean secondFails exampleKeypair exampleFour [''y'', ''q'']))
       = [[CloseAccountInstruction ''h1'' ''W'' ''W'']]"
proof -
  let ?R = "interactiveClean secondFails exampleKeypair exampleFour [''n'', ''y'', ''a'']"
  let ?Q = "interactiveClean secondFails exampleKeypair exampleFour [''y'', ''q'']"
  note t = interactive_state_machine [of secondFails exampleKeypair exampleFour _
      "initialInteractiveState []" "[]" "[]"]
  have e1: "finished ?R" "processed (run_state ?R) = [2, 3, 4]" "skipped (run_state ?R) = [1]"
    using t [of "[]"] exampleFour_length by blast+
  have e2: "finished ?Q" "processed (run_state ?Q) = [1]" "skipped (run_state ?Q) = [2, 3, 4]"
    using t [of "[]"] exampleFour_length by blast+
  have "submitted (run_state ?R)
      = map (\<lambda>k. addAccountInstructions exampleKeypair [] (exampleFour ! (k - 1)))
          (processed (run_state ?R))"
    using t [of "[''n'', ''y'', ''a'']"] by blast
  then have s1: "submitted (run_state ?R)
       = [[CloseAccountInstruction ''h2'' ''W'' ''W''], [CloseAccountInstruction ''h3'' ''W'' ''W''],
          [CloseAccountInstruction ''h4'' ''W'' ''W'']]"
    unfolding e1(2)
    by (simp add: exampleFour_def addAccountInstructions_def exampleAccount_def exampleKeypair_def
        Let_def)
  have "submitted (run_state ?Q)
      = map (\<lambda>k. addAccountInstructions exampleKeypair [] (exampleFour ! (k - 1)))
          (processed (run_state ?Q))"
    using t [of "[''y'', ''q'']"] by blast
  then have s2: "submitted (run_state ?Q) = [[CloseAccountInstruction ''h1'' ''W'' ''W'']]"
    unfolding e2(2)
    by (simp add: exampleFour_def addAccountInstructions_def exampleAccount_def exampleKeypair_def
        Let_def)
  have u: "[0..<3] = [0, 1, 2::nat]" by (simp add: upt_rec)
  have "outcomes (run_state ?R)
      = map (\<lambda>(j, t). secondFails j t)
          (zip [0 ..< length (submitted (run_state ?R))] (submitted (run_state ?R)))"
    using t [of "[''n'', ''y'', ''a'']"] by blast
  then have o1: "outcomes (run_state ?R) = [Some ''signature'', None, Some ''signature'']"
    unfolding s1 by (simp add: u secondFails_def)
  have "totalClosed (run_state ?R)
      = length (filter (\<lambda>r. r \<noteq> None) (outcomes (run_state ?R)))"
    using t [of "[''n'', ''y'', ''a'']"] by blast
  then have c1: "totalClosed (run_state ?R) = 2"
    unfolding o1 by simp
  have fl: "filter (\<lambda>r. r \<noteq> None) [Some ''signature'', None, Some ''signature'']
      = [Some ''signature'', Some ''signature'']"
    by simp
  have "totalRecovered (run_state ?R)
      = foldl fadd (Finite 0)
          (map (\<lambda>r. fdiv (Finite 2039280) (Finite 1000000000))
             (filter (\<lambda>r. r \<noteq> None) (outcomes (run_state ?R))))"
    using t [of "[''n'', ''y'', ''a'']"] by blast
  then have r1: "totalRecovered (run_state ?R) = Finite (2351129765914651 / 576460752303423488)"
    unfolding o1 fl by (simp only: list.map foldl.simps two_accounts_recovered)
  show ?thesis
    using exampleFour_length e1 s1 o1 c1 r1 e2 s2 by (intro conjI)
qed

end
